theory Spec2Isabelle
  imports Main "HOL-Library.Sublist" "HOL-Library.AList"
begin

section \<open>Exceptions and Python text\<close>

text \<open>
  Every exception that \<^verbatim>\<open>config.py\<close> raises, or lets through from the libraries it
  calls, is a value of \<open>error\<close>. \<open>SystemExit\<close> is the \<^verbatim>\<open>exit()\<close> of
  \<^verbatim>\<open>config_runtime_exception\<close>; it carries the message logged at critical severity
  and whether the usage line was printed. \<open>LibraryError\<close> stands for whatever else a
  library call (a file loader, the helper checks) may raise.
\<close>

datatype error =
    ConfigException string
  | ConfigFileNotFound string
  | ArgumentError string
  | AssertionError string
  | NameError string
  | KeyError string
  | TypeError string
  | LibraryError string
  | SystemExit string bool

text \<open>
  The values a configuration field may hold. The command line loader stores what
  \<^verbatim>\<open>ast.literal_eval\<close> reads from an argument when the argument is a Python literal
  and the text of the argument otherwise, and a JSON or Python file may hold any value.
  \<open>VOther\<close> stands for every plain value that is not a text, an integer, a truth
  value or \<^verbatim>\<open>None\<close> (a float, a list, a tuple): \<^verbatim>\<open>config.py\<close> only formats such a
  value and tests its truth, so it is given by its text under \<^verbatim>\<open>str\<close> and its truth
  value. A value read with \<^verbatim>\<open>dict.get\<close> is \<open>None\<close> when the key is missing.
\<close>

datatype pyval = VStr string | VInt int | VBool bool | VNone | VOther string bool

text \<open>Decimal text of an integer, as \<^verbatim>\<open>str\<close> gives it.\<close>

fun str_nat :: "nat \<Rightarrow> string" where
  "str_nat n =
     (if n < 10 then [char_of (48 + n)]
      else str_nat (n div 10) @ [char_of (48 + n mod 10)])"

declare str_nat.simps [simp del]

definition str_int :: "int \<Rightarrow> string" where
  "str_int i = (if i < 0 then ''-'' @ str_nat (nat (- i)) else str_nat (nat i))"

text \<open>Python's \<^verbatim>\<open>"%s" % x\<close>.\<close>

definition str_opt :: "pyval option \<Rightarrow> string" where
  "str_opt x =
     (case x of
        None \<Rightarrow> ''None''
      | Some (VStr s) \<Rightarrow> s
      | Some (VInt i) \<Rightarrow> str_int i
      | Some (VBool b) \<Rightarrow> (if b then ''True'' else ''False'')
      | Some VNone \<Rightarrow> ''None''
      | Some (VOther t b) \<Rightarrow> t)"

text \<open>
  The truth value of a value: \<^verbatim>\<open>None\<close>, the empty text, zero and \<^verbatim>\<open>False\<close> are
  false.
\<close>

definition truthy :: "pyval option \<Rightarrow> bool" where
  "truthy x =
     (case x of
        None \<Rightarrow> False
      | Some (VStr s) \<Rightarrow> s \<noteq> []
      | Some (VInt i) \<Rightarrow> i \<noteq> 0
      | Some (VBool b) \<Rightarrow> b
      | Some VNone \<Rightarrow> False
      | Some (VOther t b) \<Rightarrow> b)"

section \<open>The traitlets \<open>Config\<close> object\<close>

text \<open>
  A traitlets \<^verbatim>\<open>Config\<close> is a dictionary from section names (the names of the
  Configurable classes) to sub-\<^verbatim>\<open>Config\<close>s, each a dictionary from field names to
  values. A layer is such a two-level dictionary.

  Reading a missing section through attribute access (\<^verbatim>\<open>config.BaseConfig\<close>) does not
  fail: \<^verbatim>\<open>Config.__getitem__\<close> stores a fresh empty sub-\<^verbatim>\<open>Config\<close> under that
  name and returns it. \<open>getsection\<close> returns the section together with the dictionary
  after that access.
\<close>

type_synonym sect = "string \<rightharpoonup> pyval"
type_synonym layer = "string \<rightharpoonup> sect"

definition getsection :: "layer \<Rightarrow> string \<Rightarrow> sect \<times> layer" where
  "getsection c k =
     (case c k of
        Some s \<Rightarrow> (s, c)
      | None \<Rightarrow> (Map.empty, c(k \<mapsto> Map.empty)))"

text \<open>\<^verbatim>\<open>config.Section.field = v\<close>.\<close>

definition setfield :: "layer \<Rightarrow> string \<Rightarrow> string \<Rightarrow> pyval \<Rightarrow> layer" where
  "setfield c k f v = (let (s, c') = getsection c k in c'(k \<mapsto> s(f \<mapsto> v)))"

text \<open>The value of a field, \<open>None\<close> when the section or the field is missing.\<close>

definition field :: "layer \<Rightarrow> string \<Rightarrow> string \<Rightarrow> pyval option" where
  "field c k f = (case c k of None \<Rightarrow> None | Some s \<Rightarrow> s f)"

text \<open>
  \<^verbatim>\<open>Config.merge(self, other)\<close>: a key of \<open>other\<close> that \<open>self\<close> lacks is taken over;
  where both hold a sub-\<^verbatim>\<open>Config\<close> under a key, the two are merged recursively, which
  for sections of plain values is a per-field update.
\<close>

definition merge :: "layer \<Rightarrow> layer \<Rightarrow> layer" where
  "merge self other =
     (\<lambda>k. case other k of
            None \<Rightarrow> self k
          | Some v \<Rightarrow> (case self k of None \<Rightarrow> Some v | Some s \<Rightarrow> Some (s ++ v)))"

section \<open>The schema: Configurable classes and their traits\<close>

text \<open>
  A trait as \<^verbatim>\<open>trait_argparse_aliases\<close> reads it: its default value and its metadata
  (the keyword arguments of the declaration: \<^verbatim>\<open>switch\<close>, \<^verbatim>\<open>metavar\<close>, \<^verbatim>\<open>help\<close>).
  A class is its name and its trait members in the order \<^verbatim>\<open>getmembers\<close> lists them
  (sorted by name), the traits \<^verbatim>\<open>config\<close> and \<^verbatim>\<open>parent\<close> of every Configurable
  included.
\<close>

datatype default = DUndefined | DStr string | DInt int

record trait_type =
  default_value :: default
  metadata :: "(string \<times> string) list"

record configurable =
  cls_name :: string
  members :: "(string \<times> trait_type) list"

text \<open>\<^verbatim>\<open>text_type(default_value)\<close>.\<close>

definition text_type :: "default \<Rightarrow> string" where
  "text_type d =
     (case d of
        DUndefined \<Rightarrow> ''traitlets.Undefined''
      | DStr s \<Rightarrow> s
      | DInt i \<Rightarrow> (if i < 0 then ''-'' @ str_nat (nat (- i)) else str_nat (nat i)))"

definition lower :: "string \<Rightarrow> string" where
  "lower s =
     map (\<lambda>c. let n = (of_char c :: nat)
               in if 65 \<le> n \<and> n \<le> 90 then char_of (n + 32) else c) s"

text \<open>The keyword arguments handed to \<^verbatim>\<open>add_argument\<close>, as a dictionary.\<close>

type_synonym flagcfg = "(string \<times> (string \<times> string) list) list"

datatype kwval = KStr string | KTextType | KConst flagcfg

type_synonym kwargs = "(string \<times> kwval) list"

text \<open>
  The dictionary that describes one alias or one flag: the entries \<^verbatim>\<open>trait\<close>,
  \<^verbatim>\<open>value\<close>, \<^verbatim>\<open>add_args\<close>, \<^verbatim>\<open>add_kwargs\<close> and \<^verbatim>\<open>section\<close>, each present or
  not. A flag's \<^verbatim>\<open>value\<close> is the pair of its partial configuration and its help text.
\<close>

record arg_values =
  trait :: "string option"
  flag_value :: "(flagcfg \<times> string) option"
  add_args :: "string list option"
  add_kwargs :: "kwargs option"
  section_name :: "string option"

definition no_values :: arg_values where
  "no_values =
     \<lparr>trait = None, flag_value = None, add_args = None, add_kwargs = None,
      section_name = None\<rparr>"

text \<open>Python's \<^verbatim>\<open>dict(pairs)\<close>: a later pair replaces an earlier one with its key.\<close>

definition dict_of :: "('k \<times> 'v) list \<Rightarrow> ('k \<times> 'v) list" where
  "dict_of ps = foldl (\<lambda>d (k, v). AList.update k v d) [] ps"

text \<open>\<^verbatim>\<open>d.update(e)\<close> on dictionaries.\<close>

definition dict_update :: "('k \<times> 'v) list \<Rightarrow> ('k \<times> 'v) list \<Rightarrow> ('k \<times> 'v) list" where
  "dict_update d e = foldl (\<lambda>d (k, v). AList.update k v d) d e"

fun trait_aliases_loop ::
  "string \<Rightarrow> (string \<times> trait_type) list \<Rightarrow> (string \<times> arg_values) list
     \<Rightarrow> (string \<times> arg_values) list" where
  "trait_aliases_loop cls [] aliases = aliases"
| "trait_aliases_loop cls ((key, trait_obj) # rest) aliases =
     (if key \<in> set [''config'', ''parent''] then trait_aliases_loop cls rest aliases
      else
        let trait_meta = metadata trait_obj;
            alias_key =
              (case map_of trait_meta ''switch'' of
                 Some sw \<Rightarrow> sw
               | None \<Rightarrow> map (\<lambda>c. if c = CHR ''_'' then CHR ''-'' else c) key);
            trait_meta = AList.delete ''switch'' trait_meta;
            kw = map (\<lambda>(k, v). (k, KStr v)) trait_meta;
            kw = (if default_value trait_obj \<noteq> DStr []
                  then AList.update ''default'' (KStr (text_type (default_value trait_obj))) kw
                  else kw);
            alias_dict =
              no_values\<lparr>add_kwargs := Some kw,
                         trait := Some (cls @ ''.'' @ key),
                         section_name := Some (lower cls)\<rparr>
        in trait_aliases_loop cls rest (AList.update alias_key alias_dict aliases))"

text \<open>
  The alias key and the alias dictionary that one pass of the loop computes for a trait,
  on their own.
\<close>

definition alias_key :: "string \<Rightarrow> trait_type \<Rightarrow> string" where
  "alias_key key trait_obj =
     (case map_of (metadata trait_obj) ''switch'' of
        Some sw \<Rightarrow> sw
      | None \<Rightarrow> map (\<lambda>c. if c = CHR ''_'' then CHR ''-'' else c) key)"

definition alias_dict_of :: "string \<Rightarrow> string \<Rightarrow> trait_type \<Rightarrow> arg_values" where
  "alias_dict_of cls key trait_obj =
     (let kw = map (\<lambda>(k, v). (k, KStr v)) (AList.delete ''switch'' (metadata trait_obj));
          kw = (if default_value trait_obj \<noteq> DStr []
                then AList.update ''default'' (KStr (text_type (default_value trait_obj))) kw
                else kw)
      in no_values\<lparr>add_kwargs := Some kw,
                    trait := Some (cls @ ''.'' @ key),
                    section_name := Some (lower cls)\<rparr>)"

definition trait_argparse_aliases :: "configurable \<Rightarrow> (string \<times> arg_values) list" where
  "trait_argparse_aliases cls = trait_aliases_loop (cls_name cls) (dict_of (members cls)) []"

subsection \<open>The four classes of the program\<close>

text \<open>
  \<open>SUPPRESS\<close> is \<^verbatim>\<open>argparse.SUPPRESS\<close>. The package constants \<^verbatim>\<open>PKG_NAME\<close> and
  \<^verbatim>\<open>DESCRIPTION\<close> are defined outside \<^verbatim>\<open>config.py\<close> and are parameters here.
\<close>

record package =
  PKG_NAME :: string
  DESCRIPTION :: string

definition SUPPRESS :: string where
  "SUPPRESS = ''==SUPPRESS==''"

definition Unicode :: "string \<Rightarrow> (string \<times> string) list \<Rightarrow> trait_type" where
  "Unicode d meta = \<lparr>default_value = DStr d, metadata = meta\<rparr>"

definition Integer :: "int \<Rightarrow> (string \<times> string) list \<Rightarrow> trait_type" where
  "Integer d meta = \<lparr>default_value = DInt d, metadata = meta\<rparr>"

definition Instance :: trait_type where
  "Instance = \<lparr>default_value = DUndefined, metadata = []\<rparr>"

definition XeroApiConfig :: configurable where
  "XeroApiConfig =
     \<lparr>cls_name = ''XeroApiConfig'',
      members =
        [(''config'', Instance),
         (''consumer_key'', Unicode []
            [(''switch'', ''xero-consumer-key''), (''metavar'', ''KEY''),
             (''help'', ''The Xero API Consumer Key'')]),
         (''parent'', Instance),
         (''rsa_key_path'', Unicode []
            [(''switch'', ''xero-key-path''), (''metavar'', ''PATH''),
             (''help'', ''The path to the Xero API RSA key file'')])]\<rparr>"

definition LogConfig :: "package \<Rightarrow> configurable" where
  "LogConfig pkg =
     \<lparr>cls_name = ''LogConfig'',
      members =
        [(''config'', Instance),
         (''file_log_level'', Unicode ''DEBUG''
            [(''metavar'', ''LEVEL''), (''help'', SUPPRESS)]),
         (''log_dir'', Unicode []
            [(''metavar'', ''PATH''), (''help'', ''Directory containing log files'')]),
         (''log_path'', Unicode (PKG_NAME pkg @ ''.log'')
            [(''metavar'', ''PATH''), (''help'', SUPPRESS)]),
         (''parent'', Instance),
         (''stream_log_level'', Unicode ''WARNING''
            [(''switch'', ''verbosity''), (''metavar'', ''LEVEL''),
             (''help'', ''Set custom message output level'')])]\<rparr>"

definition BaseConfig :: configurable where
  "BaseConfig =
     \<lparr>cls_name = ''BaseConfig'',
      members =
        [(''config'', Instance),
         (''config_dir'', Unicode []
            [(''metavar'', ''PATH''), (''help'', ''Directory containing config files'')]),
         (''config_path'', Unicode []
            [(''metavar'', ''PATH''),
             (''help'', ''Load extra config from file relative to config_dir if provided'')]),
         (''contact_limit'', Integer 0
            [(''metavar'', ''LIMIT''),
             (''help'', ''Limit the number of contacts downloaded from the API'')]),
         (''data_dir'', Unicode []
            [(''metavar'', ''PATH''), (''help'', ''Directory to dump data'')]),
         (''dump_path'', Unicode ''contacts.csv''
            [(''metavar'', ''PATH''),
             (''help'',
              ''Location where CSV data is dumped relative to data_dir if provided'')]),
         (''parent'', Instance)]\<rparr>"

definition FilterConfig :: configurable where
  "FilterConfig =
     \<lparr>cls_name = ''FilterConfig'',
      members =
        [(''config'', Instance),
         (''contact_groups'', Unicode []
            [(''switch'', ''filter-contact-groups''), (''metavar'', ''\"GROUP1|GROUP2\"''),
             (''help'', ''Filter by Xero contact group names separated by '' @ [CHR 0x27, CHR ''|'', CHR 0x27])]),
         (''countries'', Unicode []
            [(''switch'', ''filter-countries''), (''metavar'', ''\"COUNTRY1|COUNTRY2\"''),
             (''help'', ''Filter by main address country. Separate countries with '' @ [CHR 0x27, CHR ''|'', CHR 0x27])]),
         (''parent'', Instance),
         (''states'', Unicode []
            [(''switch'', ''filter-states''), (''metavar'', ''\"STATE1|STATE2\"''),
             (''help'', ''Filter by main address state. Separate states with '' @ [CHR 0x27, CHR ''|'', CHR 0x27])])]\<rparr>"

section \<open>\<^verbatim>\<open>RichKVArgParseConfigLoader\<close>\<close>

text \<open>
  The loader object after \<^verbatim>\<open>__init__\<close>: the aliases and flags handed to the traitlets
  base class (alias to trait name, flag to its value), the two extension dictionaries, and
  the description passed on to the argument parser.
\<close>

record loader =
  aliases :: "(string \<times> string) list"
  flags :: "(string \<times> flagcfg \<times> string) list"
  alias_extensions :: "(string \<times> arg_values) list"
  flag_extensions :: "(string \<times> arg_values) list"
  description :: string

definition is_empty_values :: "arg_values \<Rightarrow> bool" where
  "is_empty_values v =
     (trait v = None \<and> flag_value v = None \<and> add_args v = None \<and> add_kwargs v = None
      \<and> section_name v = None)"

text \<open>
  The loop over \<^verbatim>\<open>aliases.items()\<close>. Besides the two dictionaries it builds, it
  leaves the loop variable \<^verbatim>\<open>alias\<close> bound to the last key.
\<close>

fun init_aliases ::
  "(string \<times> arg_values) list \<Rightarrow> (string \<times> string) list \<Rightarrow> (string \<times> arg_values) list
     \<Rightarrow> string option
     \<Rightarrow> error + ((string \<times> string) list \<times> (string \<times> arg_values) list \<times> string option)" where
  "init_aliases [] super_aliases exts alias = Inr (super_aliases, exts, alias)"
| "init_aliases ((key, values) # rest) super_aliases exts alias =
     (case trait values of
        None \<Rightarrow> Inl (AssertionError ''alias values must contain a trait'')
      | Some t \<Rightarrow>
          let super_aliases = AList.update key t super_aliases;
              values = values\<lparr>trait := None\<rparr>;
              exts = (if \<not> is_empty_values values then AList.update key values exts
                      else exts)
          in init_aliases rest super_aliases exts (Some key))"

text \<open>
  The loop over \<^verbatim>\<open>flags.items()\<close>. Line 102 stores what is left of a flag's
  dictionary under the variable \<^verbatim>\<open>alias\<close> of the loop before, not under \<^verbatim>\<open>flag\<close>;
  when no alias loop ran, that variable is unbound.
\<close>

fun init_flags ::
  "(string \<times> arg_values) list \<Rightarrow> (string \<times> flagcfg \<times> string) list
     \<Rightarrow> (string \<times> arg_values) list \<Rightarrow> string option
     \<Rightarrow> error + ((string \<times> flagcfg \<times> string) list \<times> (string \<times> arg_values) list)" where
  "init_flags [] super_flags exts alias = Inr (super_flags, exts)"
| "init_flags ((flag, values) # rest) super_flags exts alias =
     (case flag_value values of
        None \<Rightarrow> Inl (AssertionError ''flag value dict must contain a value'')
      | Some v \<Rightarrow>
          let super_flags = AList.update flag v super_flags;
              values = values\<lparr>flag_value := None\<rparr>
          in if \<not> is_empty_values values
             then (case alias of
                     None \<Rightarrow> Inl (NameError ''alias'')
                   | Some a \<Rightarrow> init_flags rest super_flags (AList.update a values exts) alias)
             else init_flags rest super_flags exts alias)"

definition RichKVArgParseConfigLoader ::
  "(string \<times> arg_values) list \<Rightarrow> (string \<times> arg_values) list \<Rightarrow> string \<Rightarrow> error + loader" where
  "RichKVArgParseConfigLoader aliases_arg flags_arg descr =
     (case (if aliases_arg \<noteq> [] then init_aliases aliases_arg [] [] None
            else Inr ([], [], None)) of
        Inl e \<Rightarrow> Inl e
      | Inr (super_aliases, alias_exts, alias) \<Rightarrow>
          (case (if flags_arg \<noteq> [] then init_flags flags_arg [] [] alias
                 else Inr ([], [])) of
             Inl e \<Rightarrow> Inl e
           | Inr (super_flags, flag_exts) \<Rightarrow>
               Inr \<lparr>aliases = super_aliases, flags = super_flags,
                    alias_extensions = alias_exts, flag_extensions = flag_exts,
                    description = descr\<rparr>))"

subsection \<open>Registering the arguments\<close>

text \<open>
  The parser is the list of the arguments registered so far, each with its switch
  spellings and its keyword arguments. \<^verbatim>\<open>add_argument\<close> of argparse refuses a spelling
  that does not start with a dash (the keyword \<^verbatim>\<open>dest\<close> is always given here) and a
  spelling that is registered already.
\<close>

record argument =
  option_strings :: "string list"
  kw :: kwargs

type_synonym parser = "argument list"

definition registered :: "parser \<Rightarrow> string list" where
  "registered parser = concat (map option_strings parser)"

definition add_argument :: "parser \<Rightarrow> string list \<Rightarrow> kwargs \<Rightarrow> error + parser" where
  "add_argument parser args kwargs =
     (if list_ex (\<lambda>a. \<not> prefix ''-'' a) args
      then Inl (LibraryError ''ValueError: invalid option string'')
      else if list_ex (\<lambda>a. a \<in> set (registered parser)) args
      then Inl (LibraryError ''argparse.ArgumentError: conflicting option string'')
      else Inr (parser @ [\<lparr>option_strings = args, kw = kwargs\<rparr>]))"

definition ext_add_args :: "(string \<times> arg_values) list \<Rightarrow> string \<Rightarrow> string list" where
  "ext_add_args exts key =
     (case map_of exts key of
        None \<Rightarrow> []
      | Some v \<Rightarrow> (case add_args v of None \<Rightarrow> [] | Some a \<Rightarrow> a))"

definition ext_add_kwargs :: "(string \<times> arg_values) list \<Rightarrow> string \<Rightarrow> kwargs" where
  "ext_add_kwargs exts key =
     (case map_of exts key of
        None \<Rightarrow> []
      | Some v \<Rightarrow> (case add_kwargs v of None \<Rightarrow> [] | Some k \<Rightarrow> k))"

definition default_switch :: "string \<Rightarrow> string list" where
  "default_switch key = (if length key = 1 then [''-'' @ key] else [''--'' @ key])"

fun add_alias_arguments ::
  "loader \<Rightarrow> (string \<times> flagcfg \<times> string) list \<Rightarrow> (string \<times> string) list \<Rightarrow> parser
     \<Rightarrow> error + parser" where
  "add_alias_arguments self flgs [] parser = Inr parser"
| "add_alias_arguments self flgs ((key, val) # rest) parser =
     (let args = ext_add_args (alias_extensions self) key;
          args = (if args = [] then default_switch key else args);
          kwargs = [(''dest'', KStr val), (''type'', KTextType)];
          kwargs = dict_update kwargs (ext_add_kwargs (alias_extensions self) key);
          kwargs = (if key \<in> fst ` set flgs then AList.update ''nargs'' (KStr ''?'') kwargs
                    else kwargs)
      in case add_argument parser args kwargs of
           Inl e \<Rightarrow> Inl e
         | Inr parser \<Rightarrow> add_alias_arguments self flgs rest parser)"

fun add_flag_arguments ::
  "loader \<Rightarrow> (string \<times> flagcfg \<times> string) list \<Rightarrow> parser \<Rightarrow> (string \<times> flagcfg) list
     \<Rightarrow> error + (parser \<times> (string \<times> flagcfg) list)" where
  "add_flag_arguments self [] parser alias_flags = Inr (parser, alias_flags)"
| "add_flag_arguments self ((key, (val, help)) # rest) parser alias_flags =
     (case map_of (aliases self) key of
        Some tr \<Rightarrow> add_flag_arguments self rest parser (AList.update tr val alias_flags)
      | None \<Rightarrow>
          let args = ext_add_args (flag_extensions self) key;
              args = (if args = [] then default_switch key else args);
              kwargs = [(''dest'', KStr ''_flags''), (''action'', KStr ''append_const''),
                        (''const'', KConst val), (''help'', KStr help)];
              kwargs = dict_update kwargs (ext_add_kwargs (flag_extensions self) key)
          in case add_argument parser args kwargs of
               Inl e \<Rightarrow> Inl e
             | Inr parser \<Rightarrow> add_flag_arguments self rest parser alias_flags)"

text \<open>
  The parser that \<^verbatim>\<open>_create_parser\<close> of traitlets makes before it calls
  \<^verbatim>\<open>_add_arguments\<close>: an \<^verbatim>\<open>argparse.ArgumentParser\<close> with \<^verbatim>\<open>add_help\<close> left at its
  default, which has registered \<^verbatim>\<open>-h\<close> and \<^verbatim>\<open>--help\<close> already.
\<close>

definition ArgumentParser :: parser where
  "ArgumentParser =
     [\<lparr>option_strings = [''-h'', ''--help''],
       kw = [(''action'', KStr ''help''), (''default'', KStr SUPPRESS),
             (''help'', KStr ''show this help message and exit'')]\<rparr>]"

text \<open>
  \<^verbatim>\<open>_add_arguments\<close>, on that parser: the registered arguments and the
  \<^verbatim>\<open>alias_flags\<close> dictionary.
\<close>

definition add_arguments ::
  "loader \<Rightarrow> (string \<times> string) list option \<Rightarrow> (string \<times> flagcfg \<times> string) list option
     \<Rightarrow> error + (parser \<times> (string \<times> flagcfg) list)" where
  "add_arguments self aliases_arg flags_arg =
     (let als = (case aliases_arg of None \<Rightarrow> aliases self | Some a \<Rightarrow> a);
          flgs = (case flags_arg of None \<Rightarrow> flags self | Some f \<Rightarrow> f)
      in case add_alias_arguments self flgs als ArgumentParser of
           Inl e \<Rightarrow> Inl e
         | Inr parser \<Rightarrow> add_flag_arguments self flgs parser [])"

subsection \<open>\<^verbatim>\<open>get_argparse_loader\<close>\<close>

definition builtin_flags :: "(string \<times> arg_values) list" where
  "builtin_flags =
     [(''debug'',
       no_values\<lparr>flag_value :=
                    Some ([(''LogConfig'', [(''stream_log_level'', ''DEBUG'')])],
                          ''display debug messages''),
                  add_args := Some [''-d'', ''--debug''],
                  section_name := Some ''logging''\<rparr>),
      (''verbose'',
       no_values\<lparr>flag_value :=
                    Some ([(''LogConfig'', [(''stream_log_level'', ''INFO'')])],
                          ''display extra information messages''),
                  add_args := Some [''-v'', ''--verbose''],
                  section_name := Some ''logging''\<rparr>),
      (''quiet'',
       no_values\<lparr>flag_value :=
                    Some ([(''LogConfig'', [(''stream_log_level'', ''ERROR'')])],
                          ''suppress warning messages''),
                  add_args := Some [''-q'', ''--quiet''],
                  section_name := Some ''logging''\<rparr>)]"

text \<open>
  The body of \<^verbatim>\<open>get_argparse_loader\<close> with the list of classes as an argument, and
  the function itself, on the four classes of the program.
\<close>

definition collect_aliases :: "configurable list \<Rightarrow> (string \<times> arg_values) list" where
  "collect_aliases classes =
     foldl (\<lambda>a config_class. dict_update a (trait_argparse_aliases config_class)) [] classes"

definition get_argparse_loader_of :: "configurable list \<Rightarrow> string \<Rightarrow> error + loader" where
  "get_argparse_loader_of classes descr =
     RichKVArgParseConfigLoader (collect_aliases classes) builtin_flags descr"

definition get_argparse_loader :: "package \<Rightarrow> error + loader" where
  "get_argparse_loader pkg =
     get_argparse_loader_of [XeroApiConfig, LogConfig pkg, BaseConfig, FilterConfig]
       (DESCRIPTION pkg)"

section \<open>The operating system: environment, users, files\<close>

text \<open>
  What the program takes from the machine and from the libraries it calls: the
  environment variables, the working directory, the password database (home directory
  of the current user and of named users), which paths exist, what the two traitlets file
  loaders return for a path, what the traitlets command line loader returns for a
  loader object and an argument vector (\<open>None\<close>: the arguments of the process), and
  whether \<^verbatim>\<open>setup_logging\<close> (module \<^verbatim>\<open>log\<close>, outside \<^verbatim>\<open>config.py\<close>) raises on
  the keyword arguments it is given, and what \<^verbatim>\<open>ast.literal_eval\<close> reads from a
  text (\<open>None\<close> when the text is no Python literal). Logging output itself is not
  modelled.
\<close>

record world =
  environ :: "string \<rightharpoonup> string"
  cwd :: string
  pw_uid_home :: "string option"
  pw_name_home :: "string \<rightharpoonup> string"
  path_exists :: "string \<Rightarrow> bool"
  py_load :: "string \<Rightarrow> error + layer"
  json_load :: "string \<Rightarrow> error + layer"
  argparse_load :: "loader \<Rightarrow> string list option \<Rightarrow> error + layer"
  setup_logging :: "sect \<Rightarrow> error option"
  literal_eval :: "string \<rightharpoonup> pyval"

subsection \<open>\<^verbatim>\<open>posixpath\<close>\<close>

definition is_word_char :: "char \<Rightarrow> bool" where
  "is_word_char c =
     (let n = (of_char c :: nat)
      in (48 \<le> n \<and> n \<le> 57) \<or> (65 \<le> n \<and> n \<le> 90) \<or> (97 \<le> n \<and> n \<le> 122) \<or> n = 95)"

text \<open>
  The regular expression \<^verbatim>\<open>\$(\w+|\{[^}]*\})\<close> tried right after a dollar sign:
  the variable name, the matched text after the dollar, and the text left.
\<close>

definition var_match :: "string \<Rightarrow> (string \<times> string \<times> string) option" where
  "var_match s =
     (let w = takeWhile is_word_char s
      in if w \<noteq> [] then Some (w, w, dropWhile is_word_char s)
         else (case s of
                 [] \<Rightarrow> None
               | c # r \<Rightarrow>
                   if c = CHR ''{''
                   then (let body = takeWhile (\<lambda>x. x \<noteq> CHR ''}'') r;
                             after = dropWhile (\<lambda>x. x \<noteq> CHR ''}'') r
                         in if after = [] then None
                            else Some (body, CHR ''{'' # body @ ''}'', tl after))
                   else None))"

lemma var_match_length:
  assumes "var_match s = Some (name, matched, rest)"
  shows "length rest \<le> length s"
proof (cases "takeWhile is_word_char s = []")
  case False
  with assms have "rest = dropWhile is_word_char s"
    by (simp add: var_match_def Let_def)
  then show ?thesis
    by (simp add: length_dropWhile_le)
next
  case True
  with assms obtain r where s: "s = CHR ''{'' # r"
    and rest: "rest = tl (dropWhile (\<lambda>x. x \<noteq> CHR ''}'') r)"
    by (cases s) (auto simp: var_match_def Let_def split: if_splits)
  have "length rest \<le> length (dropWhile (\<lambda>x. x \<noteq> CHR ''}'') r)"
    by (simp add: rest)
  also have "\<dots> \<le> length r"
    by (rule length_dropWhile_le)
  finally show ?thesis
    by (simp add: s)
qed

function expandvars_from :: "(string \<rightharpoonup> string) \<Rightarrow> string \<Rightarrow> string" where
  "expandvars_from env [] = []"
| "expandvars_from env (c # cs) =
     (if c = CHR ''$''
      then (case var_match cs of
              Some (name, matched, rest) \<Rightarrow>
                (case env name of
                   Some v \<Rightarrow> v @ expandvars_from env rest
                 | None \<Rightarrow> c # matched @ expandvars_from env rest)
            | None \<Rightarrow> c # expandvars_from env cs)
      else c # expandvars_from env cs)"
  by pat_completeness auto
termination
  by (relation "measure (\<lambda>(env, s). length s)")
     (auto dest: var_match_length)

definition expandvars :: "world \<Rightarrow> string \<Rightarrow> string" where
  "expandvars w path =
     (if CHR ''$'' \<notin> set path then path else expandvars_from (environ w) path)"

fun split_sep :: "char \<Rightarrow> string \<Rightarrow> string list" where
  "split_sep sep [] = [[]]"
| "split_sep sep (c # cs) =
     (if c = sep then [] # split_sep sep cs
      else (case split_sep sep cs of
              [] \<Rightarrow> [[c]]
            | x # xs \<Rightarrow> (c # x) # xs))"

fun join_sep :: "string \<Rightarrow> string list \<Rightarrow> string" where
  "join_sep sep [] = []"
| "join_sep sep [x] = x"
| "join_sep sep (x # y # ys) = x @ sep @ join_sep sep (y # ys)"

definition normpath_step :: "nat \<Rightarrow> string list \<Rightarrow> string \<Rightarrow> string list" where
  "normpath_step initial_slashes new_comps cmp =
     (if cmp = [] \<or> cmp = ''.'' then new_comps
      else if cmp \<noteq> ''..'' \<or> (initial_slashes = 0 \<and> new_comps = [])
              \<or> (new_comps \<noteq> [] \<and> last new_comps = ''..'')
      then new_comps @ [cmp]
      else if new_comps \<noteq> [] then butlast new_comps
      else new_comps)"

definition normpath :: "string \<Rightarrow> string" where
  "normpath path =
     (if path = [] then ''.''
      else
        let initial_slashes =
              (if prefix ''/'' path
               then (if prefix ''//'' path \<and> \<not> prefix ''///'' path then 2 else 1)
               else 0);
            comps = split_sep (CHR ''/'') path;
            new_comps = foldl (normpath_step initial_slashes) [] comps;
            joined = join_sep ''/'' new_comps;
            result = (if initial_slashes \<noteq> 0
                      then replicate initial_slashes (CHR ''/'') @ joined
                      else joined)
        in if result = [] then ''.'' else result)"

definition rstrip :: "char \<Rightarrow> string \<Rightarrow> string" where
  "rstrip c s = rev (dropWhile (\<lambda>x. x = c) (rev s))"

definition expanduser :: "world \<Rightarrow> string \<Rightarrow> string" where
  "expanduser w path =
     (if \<not> prefix ''~'' path then path
      else
        let i = length (takeWhile (\<lambda>x. x \<noteq> CHR ''/'') path);
            userhome =
              (if i = 1
               then (case environ w ''HOME'' of
                       None \<Rightarrow> pw_uid_home w
                     | Some h \<Rightarrow> Some h)
               else pw_name_home w (take (i - 1) (drop 1 path)))
        in case userhome of
             None \<Rightarrow> path
           | Some h \<Rightarrow>
               (let r = rstrip (CHR ''/'') h @ drop i path
                in if r = [] then ''/'' else r))"

definition isabs :: "string \<Rightarrow> bool" where
  "isabs s = prefix ''/'' s"

definition path_join :: "string \<Rightarrow> string \<Rightarrow> string" where
  "path_join a b =
     (if prefix ''/'' b then b
      else if a = [] \<or> suffix ''/'' a then a @ b
      else a @ ''/'' @ b)"

definition abspath :: "world \<Rightarrow> string \<Rightarrow> string" where
  "abspath w path = normpath (if \<not> isabs path then path_join (cwd w) path else path)"

text \<open>\<^verbatim>\<open>str.rfind\<close> of a character: the last index where it stands, or \<open>-1\<close>.\<close>

definition rfind :: "char \<Rightarrow> string \<Rightarrow> int" where
  "rfind c s =
     (if c \<in> set s
      then int (length s) - 1 - int (length (takeWhile (\<lambda>x. x \<noteq> c) (rev s)))
      else - 1)"

function splitext_loop :: "string \<Rightarrow> nat \<Rightarrow> nat \<Rightarrow> string \<times> string" where
  "splitext_loop p filenameIndex dotIndex =
     (if filenameIndex < dotIndex
      then (if take 1 (drop filenameIndex p) \<noteq> ''.''
            then (take dotIndex p, drop dotIndex p)
            else splitext_loop p (filenameIndex + 1) dotIndex)
      else (p, []))"
  by pat_completeness auto
termination
  by (relation "measure (\<lambda>(p, f, d). d - f)") auto

declare splitext_loop.simps [simp del]

definition splitext :: "string \<Rightarrow> string \<times> string" where
  "splitext p =
     (let sepIndex = rfind (CHR ''/'') p;
          dotIndex = rfind (CHR ''.'') p
      in if dotIndex > sepIndex
         then splitext_loop p (nat (sepIndex + 1)) (nat dotIndex)
         else (p, []))"

section \<open>\<^verbatim>\<open>RichConfig\<close> and the functions of \<^verbatim>\<open>config.py\<close>\<close>

text \<open>
  The accumulating configuration object: its sections, and the two entries the program
  stores in it beside the sections, \<^verbatim>\<open>_sources\<close> (set by \<^verbatim>\<open>RichConfig.__init__\<close>)
  and \<^verbatim>\<open>argparse_loader\<close> (set by \<^verbatim>\<open>load_cli_config\<close>). \<open>Config\<close> is the empty
  object.

  \<^verbatim>\<open>_sources\<close> holds the layer objects themselves, and \<^verbatim>\<open>Config.merge\<close> takes a
  section that the configuration lacks over as the same object, not as a copy. From
  then on the section of the recorded layer and the section of the configuration are
  one object, and whatever is later assigned or merged into that section of the
  configuration shows in the recorded layer too. A section the configuration has
  already is merged field by field, and the section of the layer stays as it is. A
  recorded layer therefore gives, for each of its sections, either the section's own
  content (\<open>Own\<close>) or the mark that it is the configuration's section of that name
  (\<open>Shared\<close>); \<open>source_layer\<close> is the layer as it reads at a given moment.
\<close>

datatype sref = Own sect | Shared

type_synonym source = "string \<rightharpoonup> sref"

record config =
  secs :: layer
  sources :: "(string \<times> source) list"
  argparse_loader :: "loader option"

definition Config :: config where
  "Config = \<lparr>secs = Map.empty, sources = [], argparse_loader = None\<rparr>"

definition source_layer :: "config \<Rightarrow> source \<Rightarrow> layer" where
  "source_layer self src =
     (\<lambda>k. case src k of
            None \<Rightarrow> None
          | Some (Own s) \<Rightarrow> Some s
          | Some Shared \<Rightarrow> secs self k)"

definition merge_source :: "config \<Rightarrow> string \<Rightarrow> layer \<Rightarrow> config" where
  "merge_source self name other =
     (let src = (\<lambda>k. case other k of
                        None \<Rightarrow> None
                      | Some s \<Rightarrow> if secs self k = None then Some Shared else Some (Own s));
          self = self\<lparr>sources := AList.update name src (sources self)\<rparr>
      in self\<lparr>secs := merge (secs self) other\<rparr>)"

text \<open>\<^verbatim>\<open>exc.args[0]\<close>.\<close>

fun error_message :: "error \<Rightarrow> string" where
  "error_message (ConfigException m) = m"
| "error_message (ConfigFileNotFound m) = m"
| "error_message (ArgumentError m) = m"
| "error_message (AssertionError m) = m"
| "error_message (NameError m) = m"
| "error_message (KeyError m) = m"
| "error_message (TypeError m) = m"
| "error_message (LibraryError m) = m"
| "error_message (SystemExit m u) = m"

definition config_quiet :: "config \<Rightarrow> pyval option" where
  "config_quiet config = None"

definition config_runtime_exception :: "error \<Rightarrow> config \<Rightarrow> error" where
  "config_runtime_exception exc config =
     SystemExit (error_message exc)
       (\<not> truthy (config_quiet config) \<and> argparse_loader config \<noteq> None)"

definition load_cli_config ::
  "world \<Rightarrow> package \<Rightarrow> string list option \<Rightarrow> config option \<Rightarrow> error + (layer \<times> config)" where
  "load_cli_config w pkg argv config_arg =
     (let config = (case config_arg of None \<Rightarrow> Config | Some c \<Rightarrow> c)
      in case get_argparse_loader pkg of
           Inl e \<Rightarrow> Inl e
         | Inr ld \<Rightarrow>
             (let config = config\<lparr>argparse_loader := Some ld\<rparr>
              in case argparse_load w ld argv of
                   Inl exc \<Rightarrow>
                     (case exc of
                        ArgumentError m \<Rightarrow> Inl (config_runtime_exception exc config)
                      | _ \<Rightarrow> Inl exc)
                 | Inr cli_config \<Rightarrow>
                     (let (lc, cli_config) = getsection cli_config ''LogConfig''
                      in case setup_logging w lc of
                           Some e \<Rightarrow> Inl e
                         | None \<Rightarrow> Inr (cli_config, config))))"

text \<open>\<^verbatim>\<open>str(d.keys())\<close> of a dictionary with plain text keys.\<close>

definition str_keys :: "string list \<Rightarrow> string" where
  "str_keys ks =
     ''dict_keys(['' @ join_sep '', '' (map (\<lambda>k. [CHR 0x27] @ k @ [CHR 0x27]) ks) @ ''])''"

definition load_single_file_config :: "world \<Rightarrow> string \<Rightarrow> config \<Rightarrow> error + layer" where
  "load_single_file_config w config_path config =
     (let extension_loaders = [(''.py'', py_load w), (''.json'', json_load w)];
          extension = snd (splitext config_path)
      in case map_of extension_loaders extension of
           None \<Rightarrow>
             Inl (ConfigException
                    (''invalid config file extension (must be in ''
                     @ str_keys (map fst extension_loaders)
                     @ '') in file '' @ config_path))
         | Some loader_class \<Rightarrow> loader_class config_path)"

text \<open>
  The functions of \<^verbatim>\<open>os.path\<close> take a text: for any other value
  \<^verbatim>\<open>os.path.expandvars\<close>, the first to be called, raises TypeError (its message ends
  with the name of the value's type, which is left out here). \<open>fspath\<close> is that test.
  \<^verbatim>\<open>expand_relative_path\<close> looks at \<open>dir\<close> only when the path it has so far is
  relative, and passes it to \<^verbatim>\<open>os.path\<close> only when it is true.
\<close>

definition fspath :: "pyval option \<Rightarrow> error + string" where
  "fspath x =
     (case x of
        Some (VStr s) \<Rightarrow> Inr s
      | _ \<Rightarrow> Inl (TypeError ''expected str, bytes or os.PathLike object''))"

definition expand_relative_path ::
  "world \<Rightarrow> pyval option \<Rightarrow> pyval option \<Rightarrow> error + string" where
  "expand_relative_path w path dir =
     (case fspath path of
        Inl e \<Rightarrow> Inl e
      | Inr path \<Rightarrow>
          (let path = expandvars w path;
               path = normpath path;
               path = expanduser w path
           in if \<not> prefix ''/'' path \<and> truthy dir
              then (case fspath dir of
                      Inl e \<Rightarrow> Inl e
                    | Inr d \<Rightarrow>
                        (let d = expandvars w d;
                             d = normpath d;
                             d = expanduser w d;
                             path = path_join d path
                         in Inr (abspath w path)))
              else Inr (abspath w path)))"

text \<open>
  The result is the returned path (\<open>None\<close> for the bare \<^verbatim>\<open>return\<close>) together with
  the configuration object after the call, a fresh one when none was passed.
\<close>

definition validate_config_path ::
  "world \<Rightarrow> pyval option \<Rightarrow> config option \<Rightarrow> error + (string option \<times> config)" where
  "validate_config_path w config_path config_arg =
     (let config = (case config_arg of None \<Rightarrow> Config | Some c \<Rightarrow> c)
      in if \<not> truthy config_path then Inr (None, config)
         else
           let (bc, s) = getsection (secs config) ''BaseConfig'';
               config = config\<lparr>secs := s\<rparr>;
               config_dir = bc ''config_dir''
           in case expand_relative_path w config_path config_dir of
                Inl e \<Rightarrow> Inl e
              | Inr cp \<Rightarrow>
                  if \<not> path_exists w cp
                  then Inl (ConfigFileNotFound
                              (''config_path '' @ cp @ '' does not exist under config_dir ''
                               @ str_opt config_dir))
                  else Inr (Some cp, config))"

fun load_files :: "world \<Rightarrow> config \<Rightarrow> string list \<Rightarrow> layer \<Rightarrow> error + layer" where
  "load_files w config [] file_config = Inr file_config"
| "load_files w config (config_path # rest) file_config =
     (case load_single_file_config w config_path config of
        Inl e \<Rightarrow> Inl e
      | Inr new_config \<Rightarrow> load_files w config rest (merge file_config new_config))"

definition load_file_config :: "world \<Rightarrow> config option \<Rightarrow> error + (layer \<times> config)" where
  "load_file_config w config_arg =
     (let config = (case config_arg of None \<Rightarrow> Config | Some c \<Rightarrow> c);
          file_config = Map.empty;
          config_paths = [];
          (bc, s) = getsection (secs config) ''BaseConfig'';
          config = config\<lparr>secs := s\<rparr>;
          (bc, s) = getsection (secs config) ''BaseConfig'';
          config = config\<lparr>secs := s\<rparr>
      in case validate_config_path w (bc ''config_path'') (Some config) of
           Inl e \<Rightarrow> Inl e
         | Inr (config_path, config) \<Rightarrow>
             (let config_paths =
                    (case config_path of
                       None \<Rightarrow> config_paths
                     | Some cp \<Rightarrow>
                         if cp \<noteq> [] \<and> cp \<notin> set config_paths then config_paths @ [cp]
                         else config_paths)
              in case load_files w config config_paths file_config of
                   Inl e \<Rightarrow> Inl e
                 | Inr file_config \<Rightarrow> Inr (file_config, config)))"

text \<open>
  \<^verbatim>\<open>validate_config\<close> returns nothing; the result is the configuration object after
  the call and the exception raised, if any.
\<close>

definition validate_config :: "config \<Rightarrow> config \<times> error option" where
  "validate_config config =
     (let (xc, s) = getsection (secs config) ''XeroApiConfig'';
          config = config\<lparr>secs := s\<rparr>;
          rsa_key_path = xc ''rsa_key_path'';
          (xc, s) = getsection (secs config) ''XeroApiConfig'';
          config = config\<lparr>secs := s\<rparr>;
          consumer_key = xc ''consumer_key''
      in if \<not> (truthy rsa_key_path \<and> truthy consumer_key)
         then (config,
               Some (ConfigException
                 (''To connect to the Xero API, you must either specify a Xero API ''
                  @ ''consumer key or a config file containing such a key'')))
         else (config, None))"

text \<open>
  Lines 447 to 452 of \<^verbatim>\<open>load_config\<close>: three values of the command line layer are
  copied into the accumulating configuration ahead of the merges.
\<close>

definition pull_forward :: "layer \<Rightarrow> config \<Rightarrow> layer \<times> config" where
  "pull_forward cli_config config =
     (let (cb, cli_config) = getsection cli_config ''BaseConfig'';
          config =
            (case cb ''config_path'' of
               None \<Rightarrow> config
             | Some v \<Rightarrow> config\<lparr>secs := setfield (secs config) ''BaseConfig'' ''config_path'' v\<rparr>);
          (cb, cli_config) = getsection cli_config ''BaseConfig'';
          config =
            (case cb ''config_dir'' of
               None \<Rightarrow> config
             | Some v \<Rightarrow> config\<lparr>secs := setfield (secs config) ''BaseConfig'' ''config_dir'' v\<rparr>);
          (cl, cli_config) = getsection cli_config ''LogConfig'';
          config =
            (case cl ''stream_log_level'' of
               None \<Rightarrow> config
             | Some v \<Rightarrow>
                 config\<lparr>secs := setfield (secs config) ''LogConfig'' ''stream_log_level'' v\<rparr>)
      in (cli_config, config))"

definition load_config ::
  "world \<Rightarrow> package \<Rightarrow> string list option \<Rightarrow> layer option \<Rightarrow> error + config" where
  "load_config w pkg argv proto_arg =
     (let proto_config = (case proto_arg of None \<Rightarrow> Map.empty | Some p \<Rightarrow> p);
          config = Config;
          config = merge_source config ''proto'' proto_config;
          (lc, s) = getsection (secs config) ''LogConfig'';
          config = config\<lparr>secs := s\<rparr>
      in case setup_logging w lc of
           Some e \<Rightarrow> Inl e
         | None \<Rightarrow>
             (case load_cli_config w pkg argv (Some config) of
                Inl e \<Rightarrow> Inl e
              | Inr (cli_config, config) \<Rightarrow>
                  (let (cli_config, config) = pull_forward cli_config config
                   in case load_file_config w (Some config) of
                        Inl e \<Rightarrow> Inl e
                      | Inr (file_config, config) \<Rightarrow>
                          (let config = merge_source config ''file'' file_config;
                               config = merge_source config ''cli'' cli_config;
                               (config, exc) = validate_config config
                           in case exc of
                                Some e \<Rightarrow> Inl (config_runtime_exception e config)
                              | None \<Rightarrow> Inr config))))"

section \<open>The command line, as traitlets and argparse read it\<close>

text \<open>
  \<^verbatim>\<open>KVArgParseConfigLoader.load_config\<close> of traitlets, for the command lines made of
  registered switch spellings only, each value-taking switch followed by one value that
  does not start with a dash. The loader registers its arguments through
  \<^verbatim>\<open>_add_arguments\<close>, argparse fills a namespace with the declared defaults and then
  with what the tokens say, in token order, and \<^verbatim>\<open>_convert_to_config\<close> first assigns
  every entry of the namespace to its trait and then applies the collected flags in
  the order they were met. \<open>None\<close> stands for a command line outside this fragment
  (abbreviated switches, \<^verbatim>\<open>--key=value\<close>, clustered short switches, free arguments,
  and \<^verbatim>\<open>-h\<close> or \<^verbatim>\<open>--help\<close>, on which argparse prints the help and exits).
\<close>

definition kw_str :: "kwargs \<Rightarrow> string \<Rightarrow> string option" where
  "kw_str k name = (case map_of k name of Some (KStr s) \<Rightarrow> Some s | _ \<Rightarrow> None)"

definition initial_namespace :: "parser \<Rightarrow> (string \<times> string) list" where
  "initial_namespace parser =
     foldl (\<lambda>ns a. case (kw_str (kw a) ''dest'', kw_str (kw a) ''default'') of
                      (Some d, Some v) \<Rightarrow> if d \<in> fst ` set ns then ns else ns @ [(d, v)]
                    | _ \<Rightarrow> ns)
       [] parser"

fun parse_tokens ::
  "parser \<Rightarrow> string list \<Rightarrow> (string \<times> string) list \<Rightarrow> flagcfg list
     \<Rightarrow> ((string \<times> string) list \<times> flagcfg list) option" where
  "parse_tokens parser [] ns subcs = Some (ns, subcs)"
| "parse_tokens parser (t # ts) ns subcs =
     (case find (\<lambda>a. t \<in> set (option_strings a)) parser of
        None \<Rightarrow> None
      | Some a \<Rightarrow>
          (case map_of (kw a) ''action'' of
             Some act \<Rightarrow>
               (case map_of (kw a) ''const'' of
                  Some (KConst c) \<Rightarrow>
                    if act = KStr ''append_const'' \<and> kw_str (kw a) ''dest'' = Some ''_flags''
                    then parse_tokens parser ts ns (subcs @ [c])
                    else None
                | _ \<Rightarrow> None)
           | None \<Rightarrow>
               (case kw_str (kw a) ''dest'' of
                  None \<Rightarrow> None
                | Some d \<Rightarrow>
                    (case ts of
                       [] \<Rightarrow> None
                     | v # ts' \<Rightarrow>
                         if map_of (kw a) ''nargs'' \<noteq> None \<or> prefix ''-'' v then None
                         else parse_tokens parser ts' (AList.update d v ns) subcs))))"

text \<open>
  \<^verbatim>\<open>_exec_config_str\<close>: the value is the text after \<^verbatim>\<open>expanduser\<close>, or what
  \<^verbatim>\<open>literal_eval\<close> reads from it, and it is assigned to \<^verbatim>\<open>Section.field\<close>.
\<close>

definition exec_config_str :: "world \<Rightarrow> layer \<Rightarrow> string \<Rightarrow> string \<Rightarrow> layer option" where
  "exec_config_str w cfg lhs rhs =
     (let rhs = expanduser w rhs;
          v = (case literal_eval w rhs of Some l \<Rightarrow> l | None \<Rightarrow> VStr rhs)
      in case split_sep (CHR ''.'') lhs of
           [s, f] \<Rightarrow> Some (setfield cfg s f v)
         | _ \<Rightarrow> None)"

fun exec_namespace :: "world \<Rightarrow> layer \<Rightarrow> (string \<times> string) list \<Rightarrow> layer option" where
  "exec_namespace w cfg [] = Some cfg"
| "exec_namespace w cfg ((k, v) # rest) =
     (case exec_config_str w cfg k v of
        None \<Rightarrow> None
      | Some cfg \<Rightarrow> exec_namespace w cfg rest)"

text \<open>
  \<^verbatim>\<open>_load_flag\<close>: each section of the flag updates the section of that name. The
  values of a flag are the texts of its declaration.
\<close>

definition load_flag :: "layer \<Rightarrow> flagcfg \<Rightarrow> layer" where
  "load_flag cfg subc =
     foldl (\<lambda>cfg (sec, c).
              let (s, cfg) = getsection cfg sec
              in cfg(sec \<mapsto> s ++ map_of (map (\<lambda>(f, v). (f, VStr v)) c)))
       cfg subc"

definition kv_load_config :: "world \<Rightarrow> loader \<Rightarrow> string list \<Rightarrow> (error + layer) option" where
  "kv_load_config w self argv =
     (case add_arguments self (Some (aliases self)) (Some (flags self)) of
        Inl e \<Rightarrow> Some (Inl e)
      | Inr (parser, alias_flags) \<Rightarrow>
          (case parse_tokens parser argv (initial_namespace parser) [] of
             None \<Rightarrow> None
           | Some (ns, subcs) \<Rightarrow>
               (case exec_namespace w Map.empty ns of
                  None \<Rightarrow> None
                | Some cfg \<Rightarrow> Some (Inr (foldl load_flag cfg subcs)))))"

section \<open>The cross-validators of the Configurable classes\<close>

text \<open>
  A proposal is the dictionary a validator is called with. traitlets builds it in
  \<^verbatim>\<open>TraitType._cross_validate\<close> with the three entries \<^verbatim>\<open>trait\<close>, \<^verbatim>\<open>value\<close> and
  \<^verbatim>\<open>owner\<close>, and stores what the validator returns as the new value of the trait.
  The two checks of \<^verbatim>\<open>TraitValidation\<close> (module \<^verbatim>\<open>helper\<close>, outside \<^verbatim>\<open>config.py\<close>)
  are parameters: each returns the exception it raises, if any.
\<close>

datatype propval = PValue string | PTrait string | POwner string

type_synonym proposal = "string \<rightharpoonup> propval"

record trait_validation =
  tv_path_exists :: "propval \<Rightarrow> error option"
  tv_not_falsey :: "propval \<Rightarrow> string \<Rightarrow> error option"

definition valid_rsa_key_path ::
  "trait_validation \<Rightarrow> string \<Rightarrow> proposal \<Rightarrow> error + propval option" where
  "valid_rsa_key_path tv self_class proposal =
     (case proposal ''rsa_key_path'' of
        None \<Rightarrow> Inl (KeyError ''rsa_key_path'')
      | Some v \<Rightarrow>
          (case tv_path_exists tv v of
             Some e \<Rightarrow> Inl e
           | None \<Rightarrow>
               (case proposal ''rsa_key_path'' of
                  None \<Rightarrow> Inl (KeyError ''rsa_key_path'')
                | Some r \<Rightarrow> Inr (Some r))))"

definition valid_consumer_key ::
  "trait_validation \<Rightarrow> string \<Rightarrow> proposal \<Rightarrow> error + propval option" where
  "valid_consumer_key tv self_class proposal =
     (case proposal ''consumer_key'' of
        None \<Rightarrow> Inl (KeyError ''consumer_key'')
      | Some v \<Rightarrow>
          (case tv_not_falsey tv v (self_class @ ''.'' @ ''consumer_key'') of
             Some e \<Rightarrow> Inl e
           | None \<Rightarrow> Inr None))"

definition valid_contact_groups ::
  "trait_validation \<Rightarrow> string \<Rightarrow> proposal \<Rightarrow> error + propval option" where
  "valid_contact_groups tv self_class proposal =
     (case proposal ''contact_groups'' of
        None \<Rightarrow> Inl (KeyError ''contact_groups'')
      | Some v \<Rightarrow>
          (case tv_not_falsey tv v (self_class @ ''.'' @ ''contact_groups'') of
             Some e \<Rightarrow> Inl e
           | None \<Rightarrow> Inr None))"

definition valid_states ::
  "trait_validation \<Rightarrow> string \<Rightarrow> proposal \<Rightarrow> error + propval option" where
  "valid_states tv self_class proposal =
     (case proposal ''states'' of
        None \<Rightarrow> Inl (KeyError ''states'')
      | Some v \<Rightarrow>
          (case tv_not_falsey tv v (self_class @ ''.'' @ ''states'') of
             Some e \<Rightarrow> Inl e
           | None \<Rightarrow> Inr None))"

definition valid_countries ::
  "trait_validation \<Rightarrow> string \<Rightarrow> proposal \<Rightarrow> error + propval option" where
  "valid_countries tv self_class proposal =
     (case proposal ''countries'' of
        None \<Rightarrow> Inl (KeyError ''countries'')
      | Some v \<Rightarrow>
          (case tv_not_falsey tv v (self_class @ ''.'' @ ''countries'') of
             Some e \<Rightarrow> Inl e
           | None \<Rightarrow> Inr None))"

text \<open>The proposal traitlets builds, and the cross-validation of an assigned value.\<close>

definition traitlets_proposal :: "string \<Rightarrow> string \<Rightarrow> string \<Rightarrow> proposal" where
  "traitlets_proposal trait_name owner v =
     map_of [(''trait'', PTrait trait_name), (''value'', PValue v), (''owner'', POwner owner)]"

definition cross_validate ::
  "(proposal \<Rightarrow> error + propval option) \<Rightarrow> string \<Rightarrow> string \<Rightarrow> string
     \<Rightarrow> error + propval option" where
  "cross_validate validator trait_name owner v = validator (traitlets_proposal trait_name owner v)"

section \<open>Example inputs\<close>

text \<open>
  A machine for the worked examples: two environment variables of which one holds a
  reference to the other, one existing configuration file whose JSON content sets the
  two credentials and a log level, and a command line loader that returns a layer with
  a configuration path, a log level and a consumer key.
\<close>

definition example_file :: layer where
  "example_file =
     map_of [(''XeroApiConfig'',
              map_of [(''rsa_key_path'', VStr ''key.pem''),
                      (''consumer_key'', VStr ''from-file'')]),
             (''LogConfig'', map_of [(''stream_log_level'', VStr ''INFO'')])]"

definition example_cli :: layer where
  "example_cli =
     map_of [(''BaseConfig'', map_of [(''config_path'', VStr ''conf.json'')]),
             (''LogConfig'', map_of [(''stream_log_level'', VStr ''ERROR'')]),
             (''XeroApiConfig'', map_of [(''consumer_key'', VStr ''from-cli'')])]"

definition example_proto :: layer where
  "example_proto =
     map_of [(''BaseConfig'',
              map_of [(''config_dir'', VStr ''/etc/xmg''), (''dump_path'', VStr ''out.csv'')]),
             (''XeroApiConfig'', map_of [(''rsa_key_path'', VStr ''proto.pem'')])]"

definition example_world :: world where
  "example_world =
     \<lparr>environ = map_of [(''HOME'', ''/home/user''), (''A'', ''$B''), (''B'', ''x'')],
      cwd = ''/work'',
      pw_uid_home = None,
      pw_name_home = Map.empty,
      path_exists = (\<lambda>p. p = ''/etc/xmg/conf.json''),
      py_load = (\<lambda>p. Inl (LibraryError p)),
      json_load = (\<lambda>p. Inr example_file),
      argparse_load = (\<lambda>ld argv. Inr example_cli),
      setup_logging = (\<lambda>kwargs. None),
      literal_eval = Map.empty\<rparr>"

text \<open>A class with two fields that produce the same alias key.\<close>

definition dup_class :: configurable where
  "dup_class =
     \<lparr>cls_name = ''Dup'',
      members =
        [(''a_b'', Unicode [] [(''help'', ''first'')]),
         (''other'', Unicode [] [(''switch'', ''a-b''), (''help'', ''second'')])]\<rparr>"

text \<open>The log level that each of the three shortcut switches stands for.\<close>

definition switch_level :: "string \<Rightarrow> string" where
  "switch_level t =
     (if t = ''--debug'' then ''DEBUG'' else if t = ''--verbose'' then ''INFO'' else ''ERROR'')"

definition example_package :: package where
  "example_package = \<lparr>PKG_NAME = ''xero_map_gen'', DESCRIPTION = ''Xero map generator''\<rparr>"

section \<open>Basic facts about sections and merging\<close>

lemma getsection_field: "fst (getsection c k) f = field c k f"
  by (simp add: getsection_def field_def split: option.splits)

lemma field_getsection: "field (snd (getsection c k)) s f = field c s f"
  by (simp add: getsection_def field_def split: option.splits)

lemma getsection_again:
  "getsection (snd (getsection c k)) k = (fst (getsection c k), snd (getsection c k))"
  by (simp add: getsection_def split: option.splits)

lemma field_setfield:
  "field (setfield c k f v) s g = (if s = k \<and> g = f then Some v else field c s g)"
  by (simp add: setfield_def getsection_def field_def split: option.splits)

lemma field_merge:
  "field (merge a b) s f = (case field b s f of Some v \<Rightarrow> Some v | None \<Rightarrow> field a s f)"
  by (simp add: merge_def field_def map_add_def split: option.splits)

lemma sublist_mid: "sublist x (a @ x @ b)"
  by (auto simp: sublist_def)

lemma sublist_end: "sublist x (a @ x)"
  using sublist_mid [of x a "[]"] by simp

section \<open>The validator\<close>

lemma truthy_values:
  "\<not> truthy None" "\<not> truthy (Some VNone)" "truthy (Some (VStr a)) = (a \<noteq> [])"
  "truthy (Some (VInt i)) = (i \<noteq> 0)" "truthy (Some (VBool b)) = b"
  "truthy (Some (VOther t b)) = b"
  by (simp_all add: truthy_def)

text \<open>
  C8, as the code has it. \<^verbatim>\<open>validate_config\<close> raises the ConfigException that names
  the Xero API credential requirement exactly when \<^verbatim>\<open>rsa_key_path\<close> or
  \<^verbatim>\<open>consumer_key\<close> of section XeroApiConfig is unset or holds a value that is false for
  Python: \<^verbatim>\<open>None\<close>, the empty text, zero, \<^verbatim>\<open>False\<close>, or another false value such as
  an empty list. It returns normally otherwise. For two texts it raises exactly when one
  of them is empty, but a field set to \<^verbatim>\<open>0\<close> or \<^verbatim>\<open>False\<close> is refused although it is
  set and not empty. The call changes no field value, but it does not always leave the
  configuration object as it was: reading \<^verbatim>\<open>config.XeroApiConfig\<close> creates that
  section, empty, when the object has none. With the section present the object is
  unchanged.
\<close>

theorem validate_config_amended:
  "snd (validate_config c) =
     (if (field (secs c) ''XeroApiConfig'' ''rsa_key_path''
            \<in> {None, Some VNone, Some (VStr []), Some (VInt 0), Some (VBool False)}
          \<or> (\<exists>t. field (secs c) ''XeroApiConfig'' ''rsa_key_path'' = Some (VOther t False)))
         \<or> (field (secs c) ''XeroApiConfig'' ''consumer_key''
            \<in> {None, Some VNone, Some (VStr []), Some (VInt 0), Some (VBool False)}
          \<or> (\<exists>t. field (secs c) ''XeroApiConfig'' ''consumer_key'' = Some (VOther t False)))
      then Some (ConfigException
             (''To connect to the Xero API, you must either specify a Xero API ''
              @ ''consumer key or a config file containing such a key''))
      else None)
   \<and> fst (validate_config c) =
       (if ''XeroApiConfig'' \<in> dom (secs c) then c
        else c\<lparr>secs := (secs c)(''XeroApiConfig'' \<mapsto> Map.empty)\<rparr>)
   \<and> (\<forall>s f. field (secs (fst (validate_config c))) s f = field (secs c) s f)"
proof -
  have falsy: "(\<not> truthy x) =
      (x \<in> {None, Some VNone, Some (VStr []), Some (VInt 0), Some (VBool False)}
       \<or> (\<exists>t. x = Some (VOther t False)))" for x
  proof (cases x)
    case None
    then show ?thesis by (simp add: truthy_def)
  next
    case (Some v)
    then show ?thesis by (cases v) (auto simp: truthy_def)
  qed
  have r: "snd (validate_config c) =
     (if \<not> truthy (field (secs c) ''XeroApiConfig'' ''rsa_key_path'')
         \<or> \<not> truthy (field (secs c) ''XeroApiConfig'' ''consumer_key'')
      then Some (ConfigException
             (''To connect to the Xero API, you must either specify a Xero API ''
              @ ''consumer key or a config file containing such a key''))
      else None)"
    by (simp add: validate_config_def split_beta Let_def getsection_field field_getsection)
  have o: "fst (validate_config c) =
       (if ''XeroApiConfig'' \<in> dom (secs c) then c
        else c\<lparr>secs := (secs c)(''XeroApiConfig'' \<mapsto> Map.empty)\<rparr>)"
    by (cases "secs c ''XeroApiConfig''")
       (auto simp: validate_config_def getsection_def split_beta Let_def)
  have f: "field (secs (fst (validate_config c))) s f = field (secs c) s f" for s f
    by (simp add: validate_config_def split_beta Let_def field_getsection)
  show ?thesis
    unfolding r falsy using o f by simp
qed

text \<open>
  C8 as stated fails twice. On the empty configuration the call raises, and the object
  it leaves behind has a section XeroApiConfig that the object passed in did not have.
  And with the key path \<^verbatim>\<open>key.pem\<close> and the consumer key \<^verbatim>\<open>0\<close>, the integer that the
  command line loader stores for the argument \<^verbatim>\<open>0\<close>, both fields are set and neither
  is empty, yet the call raises.
\<close>

theorem validate_config_changes_config:
  "snd (validate_config Config) \<noteq> None \<and> fst (validate_config Config) \<noteq> Config
   \<and> snd (validate_config
             (Config\<lparr>secs := map_of [(''XeroApiConfig'',
                                       map_of [(''rsa_key_path'', VStr ''key.pem''),
                                               (''consumer_key'', VInt 0)])]\<rparr>))
       = Some (ConfigException
           (''To connect to the Xero API, you must either specify a Xero API ''
            @ ''consumer key or a config file containing such a key''))"
proof -
  have "secs (fst (validate_config Config)) ''XeroApiConfig'' \<noteq> secs Config ''XeroApiConfig''"
    by (simp add: validate_config_def getsection_def Config_def Let_def)
  then have "fst (validate_config Config) \<noteq> Config"
    by auto
  moreover have "snd (validate_config Config) \<noteq> None"
    by (simp add: validate_config_def getsection_def Config_def truthy_def Let_def)
  moreover have "snd (validate_config
             (Config\<lparr>secs := map_of [(''XeroApiConfig'',
                                       map_of [(''rsa_key_path'', VStr ''key.pem''),
                                               (''consumer_key'', VInt 0)])]\<rparr>))
       = Some (ConfigException
           (''To connect to the Xero API, you must either specify a Xero API ''
            @ ''consumer key or a config file containing such a key''))"
    by (simp add: validate_config_def getsection_def Config_def truthy_def Let_def)
  ultimately show ?thesis
    by simp
qed

section \<open>The file loader\<close>

text \<open>
  C6. \<^verbatim>\<open>load_single_file_config\<close> chooses the loader by the extension that
  \<^verbatim>\<open>os.path.splitext\<close> gives: \<^verbatim>\<open>.py\<close> goes to the Python file loader, \<^verbatim>\<open>.json\<close>
  to the JSON file loader, and every other extension ends in a ConfigException that
  neither loader had a part in (the result does not mention them). The message names
  both supported extensions and the offending path. For \<^verbatim>\<open>config.yaml\<close> the
  exception is raised.
\<close>

theorem load_single_file_config_by_extension:
  "load_single_file_config w p c =
     (if snd (splitext p) = ''.py'' then py_load w p
      else if snd (splitext p) = ''.json'' then json_load w p
      else Inl (ConfigException
             (''invalid config file extension (must be in dict_keys(['.py', '.json'])) in file ''
              @ p)))
   \<and> sublist ''.py''
        (''invalid config file extension (must be in dict_keys(['.py', '.json'])) in file '' @ p)
   \<and> sublist ''.json''
        (''invalid config file extension (must be in dict_keys(['.py', '.json'])) in file '' @ p)
   \<and> sublist p
        (''invalid config file extension (must be in dict_keys(['.py', '.json'])) in file '' @ p)
   \<and> load_single_file_config w ''config.yaml'' c =
       Inl (ConfigException
         ''invalid config file extension (must be in dict_keys(['.py', '.json'])) in file config.yaml'')"
proof (intro conjI)
  show "load_single_file_config w p c =
     (if snd (splitext p) = ''.py'' then py_load w p
      else if snd (splitext p) = ''.json'' then json_load w p
      else Inl (ConfigException
             (''invalid config file extension (must be in dict_keys(['.py', '.json'])) in file ''
              @ p)))"
    by (simp add: load_single_file_config_def str_keys_def)
  have a: "''invalid config file extension (must be in dict_keys(['.py', '.json'])) in file '' @ p
     = (''invalid config file extension (must be in dict_keys(['' @ [CHR 0x27]) @ ''.py''
       @ ([CHR 0x27] @ '', '' @ [CHR 0x27] @ ''.json'' @ [CHR 0x27] @ ''])) in file '' @ p)"
    by simp
  show "sublist ''.py''
     (''invalid config file extension (must be in dict_keys(['.py', '.json'])) in file '' @ p)"
    unfolding a by (rule sublist_mid)
  have b: "''invalid config file extension (must be in dict_keys(['.py', '.json'])) in file '' @ p
     = (''invalid config file extension (must be in dict_keys(['.py', '' @ [CHR 0x27]) @ ''.json''
       @ ([CHR 0x27] @ ''])) in file '' @ p)"
    by simp
  show "sublist ''.json''
     (''invalid config file extension (must be in dict_keys(['.py', '.json'])) in file '' @ p)"
    unfolding b by (rule sublist_mid)
  show "sublist p
     (''invalid config file extension (must be in dict_keys(['.py', '.json'])) in file '' @ p)"
    by (rule sublist_end)
  have "splitext ''config.yaml'' = (''config'', ''.yaml'')"
    by code_simp
  then show "load_single_file_config w ''config.yaml'' c =
       Inl (ConfigException
         ''invalid config file extension (must be in dict_keys(['.py', '.json'])) in file config.yaml'')"
    by (simp add: load_single_file_config_def str_keys_def)
qed





section \<open>The cross-validators\<close>

text \<open>
  What a validator does with a proposal that holds an entry under the name of the
  validator's own trait: it hands the entry to the check of \<^verbatim>\<open>TraitValidation\<close>, and
  when the check passes, \<^verbatim>\<open>_valid_rsa_key_path\<close> returns the entry, while the four
  others, which end without a \<^verbatim>\<open>return\<close>, return \<^verbatim>\<open>None\<close>.
\<close>

lemma cross_validators_on_own_key:
  "(p ''rsa_key_path'' = Some x \<and> tv_path_exists tv x = None
      \<longrightarrow> valid_rsa_key_path tv cls p = Inr (Some x))
   \<and> (p ''consumer_key'' = Some x \<and> tv_not_falsey tv x (cls @ ''.'' @ ''consumer_key'') = None
      \<longrightarrow> valid_consumer_key tv cls p = Inr None)
   \<and> (p ''contact_groups'' = Some x
        \<and> tv_not_falsey tv x (cls @ ''.'' @ ''contact_groups'') = None
      \<longrightarrow> valid_contact_groups tv cls p = Inr None)
   \<and> (p ''states'' = Some x \<and> tv_not_falsey tv x (cls @ ''.'' @ ''states'') = None
      \<longrightarrow> valid_states tv cls p = Inr None)
   \<and> (p ''countries'' = Some x \<and> tv_not_falsey tv x (cls @ ''.'' @ ''countries'') = None
      \<longrightarrow> valid_countries tv cls p = Inr None)"
  by (simp add: valid_rsa_key_path_def valid_consumer_key_def valid_contact_groups_def
        valid_states_def valid_countries_def)

text \<open>
  C10. The claim says that an assignment of a non-empty text to \<^verbatim>\<open>consumer_key\<close>,
  \<^verbatim>\<open>contact_groups\<close>, \<^verbatim>\<open>states\<close> or \<^verbatim>\<open>countries\<close> stores \<^verbatim>\<open>None\<close>. The code does
  not get that far. The proposal that traitlets builds for an assignment has the entries
  \<^verbatim>\<open>trait\<close>, \<^verbatim>\<open>value\<close> and \<^verbatim>\<open>owner\<close> and no other, and each of the five validators
  reads the proposal under the name of its own trait. So on every assignment, whatever
  the trait, the owner, the value and the checks of \<^verbatim>\<open>TraitValidation\<close> are, the
  validator raises KeyError and nothing is stored.
\<close>

theorem cross_validation_raises_key_error:
  "cross_validate (valid_consumer_key tv cls) trait_name owner v
     = Inl (KeyError ''consumer_key'')
   \<and> cross_validate (valid_contact_groups tv cls) trait_name owner v
       = Inl (KeyError ''contact_groups'')
   \<and> cross_validate (valid_states tv cls) trait_name owner v = Inl (KeyError ''states'')
   \<and> cross_validate (valid_countries tv cls) trait_name owner v
       = Inl (KeyError ''countries'')
   \<and> cross_validate (valid_rsa_key_path tv cls) trait_name owner v
       = Inl (KeyError ''rsa_key_path'')"
  by (simp add: cross_validate_def traitlets_proposal_def valid_consumer_key_def
        valid_contact_groups_def valid_states_def valid_countries_def
        valid_rsa_key_path_def)

section \<open>The merge order of \<^verbatim>\<open>load_config\<close>\<close>

lemma field_empty [simp]: "field Map.empty s f = None"
  by (simp add: field_def)

lemma merge_empty [simp]: "merge Map.empty l = l"
  by (rule ext) (simp add: merge_def split: option.splits)

lemma snd_getsection_getsection:
  "snd (getsection (snd (getsection c k)) k) = snd (getsection c k)"
  by (simp add: getsection_def split: option.splits)

lemma field_pull_forward_cli: "field (fst (pull_forward cli c)) s f = field cli s f"
  by (simp add: pull_forward_def split_beta Let_def field_getsection)

lemma field_pull_forward_config:
  "field (secs (snd (pull_forward cli c))) s f =
     (if (s, f) \<in> {(''BaseConfig'', ''config_path''), (''BaseConfig'', ''config_dir''),
                    (''LogConfig'', ''stream_log_level'')}
      then (case field cli s f of Some v \<Rightarrow> Some v | None \<Rightarrow> field (secs c) s f)
      else field (secs c) s f)"
  by (auto simp: pull_forward_def split_beta Let_def getsection_field field_getsection
        field_setfield split: option.splits)

lemma pull_forward_rest:
  "sources (snd (pull_forward cli c)) = sources c
   \<and> argparse_loader (snd (pull_forward cli c)) = argparse_loader c"
  by (simp add: pull_forward_def split_beta Let_def split: option.splits)

lemma validate_config_keeps:
  "field (secs (fst (validate_config c))) s f = field (secs c) s f
   \<and> sources (fst (validate_config c)) = sources c
   \<and> argparse_loader (fst (validate_config c)) = argparse_loader c"
  by (simp add: validate_config_def split_beta Let_def field_getsection)

lemma normpath_not_empty: "normpath p \<noteq> []"
  by (simp add: normpath_def Let_def)

lemma expand_relative_path_not_empty: "expand_relative_path w p d = Inr r \<Longrightarrow> r \<noteq> []"
  by (auto simp: expand_relative_path_def abspath_def Let_def normpath_not_empty
        split: sum.splits if_splits)

lemma validate_config_raises:
  "snd (validate_config c) =
     (if truthy (field (secs c) ''XeroApiConfig'' ''rsa_key_path'')
         \<and> truthy (field (secs c) ''XeroApiConfig'' ''consumer_key'')
      then None
      else Some (ConfigException
             (''To connect to the Xero API, you must either specify a Xero API ''
              @ ''consumer key or a config file containing such a key'')))"
  by (simp add: validate_config_def split_beta Let_def getsection_field field_getsection)

lemma validate_config_path_eq:
  assumes "truthy cp"
  shows "validate_config_path w cp (Some c) =
     (case expand_relative_path w cp (field (secs c) ''BaseConfig'' ''config_dir'') of
        Inl e \<Rightarrow> Inl e
      | Inr p \<Rightarrow>
          if path_exists w p
          then Inr (Some p, c\<lparr>secs := snd (getsection (secs c) ''BaseConfig'')\<rparr>)
          else Inl (ConfigFileNotFound
                 (''config_path '' @ p @ '' does not exist under config_dir ''
                  @ str_opt (field (secs c) ''BaseConfig'' ''config_dir''))))"
  using assms
  by (simp add: validate_config_path_def split_beta Let_def getsection_field
        split: sum.splits)

lemma load_file_config_eq:
  "load_file_config w (Some c) =
     (case validate_config_path w (field (secs c) ''BaseConfig'' ''config_path'')
             (Some (c\<lparr>secs := snd (getsection (secs c) ''BaseConfig'')\<rparr>)) of
        Inl e \<Rightarrow> Inl e
      | Inr (config_path, config) \<Rightarrow>
          (case load_files w config
                  (case config_path of None \<Rightarrow> []
                   | Some cp \<Rightarrow> if cp \<noteq> [] then [] @ [cp] else []) Map.empty of
             Inl e \<Rightarrow> Inl e
           | Inr file_config \<Rightarrow> Inr (file_config, config)))"
  by (simp add: load_file_config_def split_beta Let_def getsection_field getsection_again
        snd_getsection_getsection field_getsection
      cong: sum.case_cong option.case_cong)

lemma merge_source_proto:
  "merge_source Config ''proto'' pl =
     Config\<lparr>sources := [(''proto'', \<lambda>k. case pl k of None \<Rightarrow> None | Some s \<Rightarrow> Some Shared)],
            secs := pl\<rparr>"
  by (simp add: merge_source_def Config_def Let_def cong: option.case_cong)

lemma load_config_eq:
  "load_config w pkg argv proto =
     (case setup_logging w
             (fst (getsection (case proto of None \<Rightarrow> Map.empty | Some p \<Rightarrow> p) ''LogConfig'')) of
        Some e \<Rightarrow> Inl e
      | None \<Rightarrow>
          (case load_cli_config w pkg argv
                  (Some (Config\<lparr>sources :=
                                  [(''proto'',
                                    \<lambda>k. case (case proto of None \<Rightarrow> Map.empty | Some p \<Rightarrow> p) k of
                                          None \<Rightarrow> None
                                        | Some s \<Rightarrow> Some Shared)],
                                secs :=
                                  snd (getsection
                                         (case proto of None \<Rightarrow> Map.empty | Some p \<Rightarrow> p)
                                         ''LogConfig'')\<rparr>)) of
             Inl e \<Rightarrow> Inl e
           | Inr (cli1, c2) \<Rightarrow>
               (case load_file_config w (Some (snd (pull_forward cli1 c2))) of
                  Inl e \<Rightarrow> Inl e
                | Inr (fl, c4) \<Rightarrow>
                    (case snd (validate_config
                                 (merge_source (merge_source c4 ''file'' fl) ''cli''
                                    (fst (pull_forward cli1 c2)))) of
                       Some e \<Rightarrow>
                         Inl (config_runtime_exception e
                                (fst (validate_config
                                        (merge_source (merge_source c4 ''file'' fl) ''cli''
                                           (fst (pull_forward cli1 c2))))))
                     | None \<Rightarrow>
                         Inr (fst (validate_config
                                     (merge_source (merge_source c4 ''file'' fl) ''cli''
                                        (fst (pull_forward cli1 c2)))))))))"
  by (simp add: load_config_def Let_def split_beta merge_source_proto
           split: option.splits sum.splits)

text \<open>
  What \<^verbatim>\<open>load_file_config\<close> returns: no layer entries without a configured path, and
  otherwise the layer that \<^verbatim>\<open>load_single_file_config\<close> loads from the expanded path,
  which exists. The configuration object keeps its field values.
\<close>

lemma load_file_config_result:
  assumes "load_file_config w (Some c) = Inr (fl, c')"
  shows "(\<forall>s f. field (secs c') s f = field (secs c) s f)
     \<and> sources c' = sources c \<and> argparse_loader c' = argparse_loader c
     \<and> (if \<not> truthy (field (secs c) ''BaseConfig'' ''config_path'') then fl = Map.empty
         else \<exists>p. expand_relative_path w (field (secs c) ''BaseConfig'' ''config_path'')
                     (field (secs c) ''BaseConfig'' ''config_dir'') = Inr p
                \<and> path_exists w p
                \<and> load_single_file_config w p c' = Inr fl)"
proof -
  define c1 where "c1 = c\<lparr>secs := snd (getsection (secs c) ''BaseConfig'')\<rparr>"
  define cp where "cp = field (secs c) ''BaseConfig'' ''config_path''"
  define dir where "dir = field (secs c) ''BaseConfig'' ''config_dir''"
  have f1: "field (secs c1) s f = field (secs c) s f" for s f
    by (simp add: c1_def field_getsection)
  have c1c1: "c1\<lparr>secs := snd (getsection (secs c1) ''BaseConfig'')\<rparr> = c1"
    by (simp add: c1_def snd_getsection_getsection)
  note unf = load_file_config_eq [of w c, folded c1_def cp_def]
  show ?thesis
  proof (cases "truthy cp")
    case False
    then have "validate_config_path w cp (Some c1) = Inr (None, c1)"
      by (simp add: validate_config_path_def)
    with assms unf have "fl = Map.empty" "c' = c1"
      by simp_all
    with False f1 show ?thesis
      by (simp add: c1_def cp_def)
  next
    case True
    have v: "validate_config_path w cp (Some c1) =
        (case expand_relative_path w cp dir of
           Inl e \<Rightarrow> Inl e
         | Inr p \<Rightarrow>
             if path_exists w p then Inr (Some p, c1)
             else Inl (ConfigFileNotFound
                    (''config_path '' @ p @ '' does not exist under config_dir ''
                     @ str_opt dir)))"
      by (auto simp: validate_config_path_eq [OF True] f1 dir_def [symmetric] c1c1
            split: sum.splits)
    from assms unf v obtain p where e: "expand_relative_path w cp dir = Inr p"
      by (auto split: sum.splits)
    then have ne: "p \<noteq> []"
      by (rule expand_relative_path_not_empty)
    from assms unf v e have ex: "path_exists w p"
      by (auto split: if_splits)
    with assms unf v e ne have "load_single_file_config w p c1 = Inr fl" "c' = c1"
      by (auto split: sum.splits)
    with True e ex f1 show ?thesis
      by (auto simp: c1_def cp_def dir_def)
  qed
qed

text \<open>
  A run of \<^verbatim>\<open>load_config\<close> that returns, taken apart: the loader, the layer the command
  line gave, the configuration as it stands when the file layer is resolved, the file
  layer, and the command line layer as it is merged.
\<close>

lemma load_config_steps:
  assumes "load_config w pkg argv proto = Inr final"
  obtains cli1 c2 fl c4 where
    "load_cli_config w pkg argv
       (Some (Config\<lparr>sources :=
                       [(''proto'',
                         \<lambda>k. case (case proto of None \<Rightarrow> Map.empty | Some p \<Rightarrow> p) k of
                               None \<Rightarrow> None
                             | Some s \<Rightarrow> Some Shared)],
                     secs := snd (getsection (case proto of None \<Rightarrow> Map.empty | Some p \<Rightarrow> p)
                                    ''LogConfig'')\<rparr>))
       = Inr (cli1, c2)"
    and "load_file_config w (Some (snd (pull_forward cli1 c2))) = Inr (fl, c4)"
    and "final = fst (validate_config
                   (merge_source (merge_source c4 ''file'' fl) ''cli''
                      (fst (pull_forward cli1 c2))))"
  using assms unfolding load_config_eq
  by (auto split: option.splits sum.splits)

lemma load_cli_config_result:
  assumes "load_cli_config w pkg argv (Some c) = Inr (cli1, c2)"
  shows "\<exists>ld cli0. get_argparse_loader pkg = Inr ld \<and> argparse_load w ld argv = Inr cli0
     \<and> cli1 = snd (getsection cli0 ''LogConfig'') \<and> c2 = c\<lparr>argparse_loader := Some ld\<rparr>"
  using assms
  by (auto simp: load_cli_config_def Let_def split_beta
           split: option.splits sum.splits error.splits)

text \<open>
  The run as a whole. The three layers are recorded under their names, in this order.
  The recorded proto layer shares every one of its sections with the configuration, so
  at the return it reads as the final configuration does on the sections that the proto
  layer has.
\<close>

lemma load_config_run:
  assumes "load_config w pkg argv proto = Inr final"
  shows "\<exists>ld cli0 before fl c4 cl psrc fsrc csrc.
     get_argparse_loader pkg = Inr ld
     \<and> argparse_load w ld argv = Inr cli0
     \<and> (\<forall>s f. field (secs before) s f =
           (if (s, f) \<in> {(''BaseConfig'', ''config_path''), (''BaseConfig'', ''config_dir''),
                          (''LogConfig'', ''stream_log_level'')}
            then (case field cli0 s f of
                    Some v \<Rightarrow> Some v
                  | None \<Rightarrow> field (case proto of None \<Rightarrow> Map.empty | Some p \<Rightarrow> p) s f)
            else field (case proto of None \<Rightarrow> Map.empty | Some p \<Rightarrow> p) s f))
     \<and> load_file_config w (Some before) = Inr (fl, c4)
     \<and> (\<forall>s f. field cl s f = field cli0 s f)
     \<and> sources final = [(''proto'', psrc), (''file'', fsrc), (''cli'', csrc)]
     \<and> source_layer final psrc =
         (\<lambda>k. if (case proto of None \<Rightarrow> Map.empty | Some p \<Rightarrow> p) k = None then None
              else secs final k)
     \<and> dom fsrc = dom fl \<and> dom csrc = dom cl
     \<and> (\<forall>s f. field (secs final) s f =
           (case field cl s f of
              Some v \<Rightarrow> Some v
            | None \<Rightarrow>
                (case field fl s f of
                   Some v \<Rightarrow> Some v
                 | None \<Rightarrow> field (case proto of None \<Rightarrow> Map.empty | Some p \<Rightarrow> p) s f)))"
proof -
  define pl where "pl = (case proto of None \<Rightarrow> Map.empty | Some p \<Rightarrow> p)"
  define psrc :: source where "psrc = (\<lambda>k. case pl k of None \<Rightarrow> None | Some s \<Rightarrow> Some Shared)"
  define c1 where
    "c1 = Config\<lparr>sources := [(''proto'', psrc)], secs := snd (getsection pl ''LogConfig'')\<rparr>"
  from load_config_steps [OF assms] obtain cli1 c2 fl c4 where
    cli: "load_cli_config w pkg argv (Some c1) = Inr (cli1, c2)"
    and fil: "load_file_config w (Some (snd (pull_forward cli1 c2))) = Inr (fl, c4)"
    and final: "final = fst (validate_config
                   (merge_source (merge_source c4 ''file'' fl) ''cli''
                      (fst (pull_forward cli1 c2))))"
    unfolding c1_def psrc_def pl_def by blast
  from load_cli_config_result [OF cli] obtain ld cli0 where
    ld: "get_argparse_loader pkg = Inr ld" and cli0: "argparse_load w ld argv = Inr cli0"
    and cli1: "cli1 = snd (getsection cli0 ''LogConfig'')"
    and c2: "c2 = c1\<lparr>argparse_loader := Some ld\<rparr>"
    by blast
  define before where "before = snd (pull_forward cli1 c2)"
  define cl where "cl = fst (pull_forward cli1 c2)"
  define c5 where "c5 = merge_source c4 ''file'' fl"
  define c6 where "c6 = merge_source c5 ''cli'' cl"
  define fsrc :: source where
    "fsrc = (\<lambda>k. case fl k of
                   None \<Rightarrow> None
                 | Some s \<Rightarrow> if secs c4 k = None then Some Shared else Some (Own s))"
  define csrc :: source where
    "csrc = (\<lambda>k. case cl k of
                   None \<Rightarrow> None
                 | Some s \<Rightarrow> if secs c5 k = None then Some Shared else Some (Own s))"
  have fc1: "field cli1 s f = field cli0 s f" for s f
    by (simp add: cli1 field_getsection)
  have fc2: "field (secs c2) s f = field pl s f" for s f
    by (simp add: c2 c1_def field_getsection)
  have fbefore: "field (secs before) s f =
           (if (s, f) \<in> {(''BaseConfig'', ''config_path''), (''BaseConfig'', ''config_dir''),
                          (''LogConfig'', ''stream_log_level'')}
            then (case field cli0 s f of Some v \<Rightarrow> Some v | None \<Rightarrow> field pl s f)
            else field pl s f)" for s f
    unfolding before_def field_pull_forward_config fc1 fc2 ..
  have fcl: "field cl s f = field cli0 s f" for s f
    by (simp add: cl_def field_pull_forward_cli fc1)
  note fr = load_file_config_result [OF fil [folded before_def]]
  have f4: "field (secs c4) s f = field (secs before) s f" for s f
    using fr by blast
  have s4: "sources c4 = [(''proto'', psrc)]"
    using fr pull_forward_rest [of cli1 c2]
    by (simp add: before_def c2 c1_def)
  have fin: "final = fst (validate_config c6)"
    by (simp add: final c6_def c5_def cl_def)
  have src: "sources final = [(''proto'', psrc), (''file'', fsrc), (''cli'', csrc)]"
    by (simp add: fin validate_config_keeps c6_def c5_def merge_source_def s4 fsrc_def
          csrc_def Let_def cong: option.case_cong)
  have doms: "dom fsrc = dom fl" "dom csrc = dom cl"
    by (auto simp: fsrc_def csrc_def split: option.splits if_splits)
  have ffinal: "field (secs final) s f =
           (case field cl s f of
              Some v \<Rightarrow> Some v
            | None \<Rightarrow> (case field fl s f of Some v \<Rightarrow> Some v | None \<Rightarrow> field pl s f))" for s f
  proof -
    have "field (secs final) s f = field (merge (merge (secs c4) fl) cl) s f"
      by (simp add: fin validate_config_keeps c6_def c5_def merge_source_def Let_def)
    then show ?thesis
      by (auto simp: field_merge f4 fbefore fcl split: option.splits)
  qed
  have psl: "source_layer final psrc = (\<lambda>k. if pl k = None then None else secs final k)"
    by (rule ext) (simp add: source_layer_def psrc_def split: option.splits)
  show ?thesis
    using ld cli0 fbefore fil [folded before_def] fcl src psl doms ffinal
    unfolding pl_def by blast
qed

subsection \<open>A worked run\<close>

lemma example_loader: "\<exists>ld. get_argparse_loader example_package = Inr ld"
proof -
  have "case get_argparse_loader example_package of Inl e \<Rightarrow> False | Inr ld \<Rightarrow> True"
    by code_simp
  then show ?thesis
    by (simp split: sum.splits)
qed

lemma example_expand:
  "expand_relative_path example_world (Some (VStr ''conf.json'')) (Some (VStr ''/etc/xmg''))
     = Inr ''/etc/xmg/conf.json''"
  by code_simp

lemma example_splitext: "splitext ''/etc/xmg/conf.json'' = (''/etc/xmg/conf'', ''.json'')"
  by code_simp

lemma example_layers:
  "field example_proto ''BaseConfig'' ''config_dir'' = Some (VStr ''/etc/xmg'')"
  "field example_proto ''BaseConfig'' ''config_path'' = None"
  "field example_proto ''BaseConfig'' ''dump_path'' = Some (VStr ''out.csv'')"
  "field example_proto ''XeroApiConfig'' ''rsa_key_path'' = Some (VStr ''proto.pem'')"
  "field example_cli ''BaseConfig'' ''config_path'' = Some (VStr ''conf.json'')"
  "field example_cli ''BaseConfig'' ''config_dir'' = None"
  "field example_cli ''BaseConfig'' ''dump_path'' = None"
  "field example_cli ''XeroApiConfig'' ''consumer_key'' = Some (VStr ''from-cli'')"
  "field example_cli ''XeroApiConfig'' ''rsa_key_path'' = None"
  "field example_cli ''LogConfig'' ''stream_log_level'' = Some (VStr ''ERROR'')"
  "field example_file ''XeroApiConfig'' ''rsa_key_path'' = Some (VStr ''key.pem'')"
  "field example_file ''XeroApiConfig'' ''consumer_key'' = Some (VStr ''from-file'')"
  "field example_file ''LogConfig'' ''stream_log_level'' = Some (VStr ''INFO'')"
  "field example_file ''BaseConfig'' ''dump_path'' = None"
  by (simp_all add: example_proto_def example_cli_def example_file_def field_def)

lemma example_run:
  "\<exists>final. load_config example_world example_package None (Some example_proto) = Inr final
     \<and> field (secs final) ''XeroApiConfig'' ''consumer_key'' = Some (VStr ''from-cli'')
     \<and> field (secs final) ''XeroApiConfig'' ''rsa_key_path'' = Some (VStr ''key.pem'')
     \<and> field (secs final) ''LogConfig'' ''stream_log_level'' = Some (VStr ''ERROR'')
     \<and> field (secs final) ''BaseConfig'' ''dump_path'' = Some (VStr ''out.csv'')"
proof -
  from example_loader obtain ld where ld: "get_argparse_loader example_package = Inr ld" ..
  define c1 where
    "c1 = Config\<lparr>sources :=
                    [(''proto'',
                      \<lambda>k. case example_proto k of None \<Rightarrow> None | Some s \<Rightarrow> Some Shared)],
                  secs := snd (getsection example_proto ''LogConfig'')\<rparr>"
  define c2 where "c2 = c1\<lparr>argparse_loader := Some ld\<rparr>"
  define cl where "cl = fst (pull_forward example_cli c2)"
  define before where "before = snd (pull_forward example_cli c2)"
  define c4 where "c4 = before\<lparr>secs := snd (getsection (secs before) ''BaseConfig'')\<rparr>"
  define c5 where "c5 = merge_source (merge_source c4 ''file'' example_file) ''cli'' cl"
  have log: "setup_logging example_world x = None" for x
    by (simp add: example_world_def)
  have cli: "load_cli_config example_world example_package None (Some c1)
      = Inr (example_cli, c2)"
    by (simp add: load_cli_config_def ld example_world_def getsection_def example_cli_def
          c2_def)
  have fc2: "field (secs c2) s f = field example_proto s f" for s f
    by (simp add: c2_def c1_def field_getsection)
  have fb: "field (secs before) ''BaseConfig'' ''config_path'' = Some (VStr ''conf.json'')"
    "field (secs before) ''BaseConfig'' ''config_dir'' = Some (VStr ''/etc/xmg'')"
    by (simp_all add: before_def field_pull_forward_config fc2 example_layers)
  have vp: "validate_config_path example_world (Some (VStr ''conf.json'')) (Some c4)
      = Inr (Some ''/etc/xmg/conf.json'', c4)"
    by (simp add: validate_config_path_eq truthy_def c4_def field_getsection fb example_expand
          snd_getsection_getsection)
       (simp add: example_world_def)
  have ld1: "load_single_file_config example_world ''/etc/xmg/conf.json'' c4 = Inr example_file"
    by (simp add: load_single_file_config_def example_splitext)
       (simp add: example_world_def)
  have fil: "load_file_config example_world (Some before) = Inr (example_file, c4)"
    by (simp add: load_file_config_eq fb c4_def [symmetric] vp ld1)
  have f5: "field (secs c5) s f =
      (case field example_cli s f of
         Some v \<Rightarrow> Some v
       | None \<Rightarrow> (case field example_file s f of
                    Some v \<Rightarrow> Some v
                  | None \<Rightarrow> field (secs before) s f))" for s f
    by (auto simp: c5_def merge_source_def field_merge cl_def field_pull_forward_cli c4_def
          field_getsection split: option.splits)
  have ok: "snd (validate_config c5) = None"
    by (simp add: validate_config_raises f5 example_layers truthy_def)
  have run: "load_config example_world example_package None (Some example_proto)
      = Inr (fst (validate_config c5))"
    by (simp add: load_config_eq log c1_def [symmetric] cli before_def [symmetric] fil
          cl_def [symmetric] c5_def [symmetric] ok)
  have "field (secs (fst (validate_config c5))) ''XeroApiConfig'' ''consumer_key''
          = Some (VStr ''from-cli'')"
    "field (secs (fst (validate_config c5))) ''XeroApiConfig'' ''rsa_key_path''
          = Some (VStr ''key.pem'')"
    "field (secs (fst (validate_config c5))) ''LogConfig'' ''stream_log_level''
          = Some (VStr ''ERROR'')"
    "field (secs (fst (validate_config c5))) ''BaseConfig'' ''dump_path''
          = Some (VStr ''out.csv'')"
    by (simp_all add: validate_config_keeps f5 example_layers before_def
          field_pull_forward_config fc2)
  with run show ?thesis
    by blast
qed

section \<open>Claims about \<^verbatim>\<open>load_config\<close>\<close>

text \<open>
  C1. A run of \<^verbatim>\<open>load_config\<close> that returns has merged three layers, recorded in this
  order: proto (the configuration passed in, empty when none is), file and cli. The
  cli layer holds what the command line loader returned, and the file layer is what
  \<^verbatim>\<open>load_file_config\<close> returned for the configuration as it stood after the three
  values of the command line were copied in. Every field of the result is the cli
  layer's value when that layer sets the field, else the file layer's value when that
  layer sets it, else the proto layer's value. The rule holds field by field, so a
  layer that sets one field of a section leaves the other fields of that section to
  the layers below it. The layer objects recorded in \<^verbatim>\<open>_sources\<close> have the sections of
  the file and cli layers; the recorded proto layer shares its sections with the result,
  and reads as the result does.
\<close>

theorem load_config_merge_precedence:
  assumes "load_config w pkg argv proto = Inr final"
  shows "\<exists>ld cli0 before fl c4 cl psrc fsrc csrc.
     get_argparse_loader pkg = Inr ld
     \<and> argparse_load w ld argv = Inr cli0
     \<and> (\<forall>s f. field (secs before) s f =
           (if (s, f) \<in> {(''BaseConfig'', ''config_path''), (''BaseConfig'', ''config_dir''),
                          (''LogConfig'', ''stream_log_level'')}
            then (case field cli0 s f of
                    Some v \<Rightarrow> Some v
                  | None \<Rightarrow> field (case proto of None \<Rightarrow> Map.empty | Some p \<Rightarrow> p) s f)
            else field (case proto of None \<Rightarrow> Map.empty | Some p \<Rightarrow> p) s f))
     \<and> load_file_config w (Some before) = Inr (fl, c4)
     \<and> (\<forall>s f. field cl s f = field cli0 s f)
     \<and> sources final = [(''proto'', psrc), (''file'', fsrc), (''cli'', csrc)]
     \<and> source_layer final psrc =
         (\<lambda>k. if (case proto of None \<Rightarrow> Map.empty | Some p \<Rightarrow> p) k = None then None
              else secs final k)
     \<and> dom fsrc = dom fl \<and> dom csrc = dom cl
     \<and> (\<forall>s f. field (secs final) s f =
           (case field cl s f of
              Some v \<Rightarrow> Some v
            | None \<Rightarrow>
                (case field fl s f of
                   Some v \<Rightarrow> Some v
                 | None \<Rightarrow> field (case proto of None \<Rightarrow> Map.empty | Some p \<Rightarrow> p) s f)))"
  using assms by (rule load_config_run)

theorem load_config_merge_precedence_witness:
  "\<exists>final.
     load_config example_world example_package None (Some example_proto) = Inr final
     \<and> field (secs final) ''XeroApiConfig'' ''consumer_key'' = Some (VStr ''from-cli'')
     \<and> field (secs final) ''XeroApiConfig'' ''rsa_key_path'' = Some (VStr ''key.pem'')
     \<and> field (secs final) ''LogConfig'' ''stream_log_level'' = Some (VStr ''ERROR'')
     \<and> field (secs final) ''BaseConfig'' ''dump_path'' = Some (VStr ''out.csv'')
     \<and> (\<exists>ld cli0 before fl c4 cl psrc fsrc csrc.
          get_argparse_loader example_package = Inr ld
          \<and> argparse_load example_world ld None = Inr cli0
          \<and> (\<forall>s f. field (secs before) s f =
                (if (s, f) \<in> {(''BaseConfig'', ''config_path''),
                               (''BaseConfig'', ''config_dir''),
                               (''LogConfig'', ''stream_log_level'')}
                 then (case field cli0 s f of
                         Some v \<Rightarrow> Some v
                       | None \<Rightarrow> field example_proto s f)
                 else field example_proto s f))
          \<and> load_file_config example_world (Some before) = Inr (fl, c4)
          \<and> (\<forall>s f. field cl s f = field cli0 s f)
          \<and> sources final = [(''proto'', psrc), (''file'', fsrc), (''cli'', csrc)]
          \<and> source_layer final psrc =
              (\<lambda>k. if example_proto k = None then None else secs final k)
          \<and> dom fsrc = dom fl \<and> dom csrc = dom cl
          \<and> (\<forall>s f. field (secs final) s f =
                (case field cl s f of
                   Some v \<Rightarrow> Some v
                 | None \<Rightarrow>
                     (case field fl s f of
                        Some v \<Rightarrow> Some v
                      | None \<Rightarrow> field example_proto s f))))"
proof -
  from example_run obtain final where
    run: "load_config example_world example_package None (Some example_proto) = Inr final"
    and vals: "field (secs final) ''XeroApiConfig'' ''consumer_key'' = Some (VStr ''from-cli'')"
      "field (secs final) ''XeroApiConfig'' ''rsa_key_path'' = Some (VStr ''key.pem'')"
      "field (secs final) ''LogConfig'' ''stream_log_level'' = Some (VStr ''ERROR'')"
      "field (secs final) ''BaseConfig'' ''dump_path'' = Some (VStr ''out.csv'')"
    by blast
  note parts = load_config_merge_precedence [OF run, unfolded option.case]
  show ?thesis
    by (rule exI [of _ final]) (intro conjI run vals parts)
qed



section \<open>The argument parser of the program\<close>

text \<open>
  What \<^verbatim>\<open>get_argparse_loader\<close> builds and what \<^verbatim>\<open>_add_arguments\<close> registers from it,
  by evaluation, for every package name and description.
\<close>

lemma program_parser_case:
  "case get_argparse_loader pkg of
     Inl e \<Rightarrow> False
   | Inr ld \<Rightarrow>
       map fst (flags ld) = [''debug'', ''verbose'', ''quiet'']
       \<and> flag_extensions ld =
           [(''filter-states'',
             \<lparr>trait = None, flag_value = None, add_args = Some [''-q'', ''--quiet''],
              add_kwargs = None, section_name = Some ''logging''\<rparr>)]
       \<and> (case add_arguments ld None None of
             Inl e \<Rightarrow> False
           | Inr (p, af) \<Rightarrow>
               af = []
               \<and> registered p =
                   [''-h'', ''--help'', ''--xero-consumer-key'', ''--xero-key-path'',
            ''--file-log-level'',
                    ''--log-dir'', ''--log-path'', ''--verbosity'', ''--config-dir'',
                    ''--config-path'', ''--contact-limit'', ''--data-dir'', ''--dump-path'',
                    ''--filter-contact-groups'', ''--filter-countries'', ''--filter-states'',
                    ''--debug'', ''--verbose'', ''--quiet'']
               \<and> map fst (initial_namespace p) =
                   [''LogConfig.file_log_level'', ''LogConfig.log_path'',
                    ''LogConfig.stream_log_level'', ''BaseConfig.contact_limit'',
                    ''BaseConfig.dump_path'']
               \<and> find (\<lambda>a. ''--debug'' \<in> set (option_strings a)) p =
                   Some \<lparr>option_strings = [''--debug''],
                         kw = [(''dest'', KStr ''_flags''), (''action'', KStr ''append_const''),
                               (''const'',
                                KConst [(''LogConfig'', [(''stream_log_level'', ''DEBUG'')])]),
                               (''help'', KStr ''display debug messages'')]\<rparr>
               \<and> find (\<lambda>a. ''--verbose'' \<in> set (option_strings a)) p =
                   Some \<lparr>option_strings = [''--verbose''],
                         kw = [(''dest'', KStr ''_flags''), (''action'', KStr ''append_const''),
                               (''const'',
                                KConst [(''LogConfig'', [(''stream_log_level'', ''INFO'')])]),
                               (''help'', KStr ''display extra information messages'')]\<rparr>
               \<and> find (\<lambda>a. ''--quiet'' \<in> set (option_strings a)) p =
                   Some \<lparr>option_strings = [''--quiet''],
                         kw = [(''dest'', KStr ''_flags''), (''action'', KStr ''append_const''),
                               (''const'',
                                KConst [(''LogConfig'', [(''stream_log_level'', ''ERROR'')])]),
                               (''help'', KStr ''suppress warning messages'')]\<rparr>)"
proof (cases pkg)
  case (fields n d)
  show ?thesis
  proof (cases n)
    case Nil
    show ?thesis
      unfolding fields Nil by code_simp
  next
    case (Cons c cs)
    show ?thesis
      unfolding fields Cons by code_simp
  qed
qed

lemma program_parser:
  obtains ld p where
    "get_argparse_loader pkg = Inr ld"
    and "add_arguments ld None None = Inr (p, [])"
    and "map fst (flags ld) = [''debug'', ''verbose'', ''quiet'']"
    and "flag_extensions ld =
           [(''filter-states'',
             \<lparr>trait = None, flag_value = None, add_args = Some [''-q'', ''--quiet''],
              add_kwargs = None, section_name = Some ''logging''\<rparr>)]"
    and "registered p =
           [''-h'', ''--help'', ''--xero-consumer-key'', ''--xero-key-path'',
            ''--file-log-level'',
            ''--log-dir'', ''--log-path'', ''--verbosity'', ''--config-dir'',
            ''--config-path'', ''--contact-limit'', ''--data-dir'', ''--dump-path'',
            ''--filter-contact-groups'', ''--filter-countries'', ''--filter-states'',
            ''--debug'', ''--verbose'', ''--quiet'']"
    and "map fst (initial_namespace p) =
           [''LogConfig.file_log_level'', ''LogConfig.log_path'',
            ''LogConfig.stream_log_level'', ''BaseConfig.contact_limit'',
            ''BaseConfig.dump_path'']"
    and "\<And>t. t \<in> {''--debug'', ''--verbose'', ''--quiet''} \<Longrightarrow>
           \<exists>h. find (\<lambda>a. t \<in> set (option_strings a)) p =
             Some \<lparr>option_strings = [t],
                   kw = [(''dest'', KStr ''_flags''), (''action'', KStr ''append_const''),
                         (''const'',
                          KConst [(''LogConfig'', [(''stream_log_level'', switch_level t)])]),
                         (''help'', KStr h)]\<rparr>"
proof -
  from program_parser_case [of pkg] obtain ld where
    ld: "get_argparse_loader pkg = Inr ld"
    by (cases "get_argparse_loader pkg") simp_all
  from program_parser_case [of pkg] obtain p af where
    p: "add_arguments ld None None = Inr (p, af)"
    by (cases "add_arguments ld None None") (auto simp: ld)
  note facts = program_parser_case [of pkg, unfolded ld p sum.case prod.case]
  show thesis
  proof (rule that [OF ld _ _ _ _ _, of p])
    show "add_arguments ld None None = Inr (p, [])"
      using facts p by simp
    show "\<exists>h. find (\<lambda>a. t \<in> set (option_strings a)) p =
             Some \<lparr>option_strings = [t],
                   kw = [(''dest'', KStr ''_flags''), (''action'', KStr ''append_const''),
                         (''const'',
                          KConst [(''LogConfig'', [(''stream_log_level'', switch_level t)])]),
                         (''help'', KStr h)]\<rparr>"
      if "t \<in> {''--debug'', ''--verbose'', ''--quiet''}" for t
      using that facts by (auto simp: switch_level_def)
  qed (use facts in simp_all)
qed

text \<open>
  C3. The claim says that the parser registers \<^verbatim>\<open>-d\<close>, \<^verbatim>\<open>-v\<close> and \<^verbatim>\<open>-q\<close> beside
  \<^verbatim>\<open>--debug\<close>, \<^verbatim>\<open>--verbose\<close> and \<^verbatim>\<open>--quiet\<close>. The code does not: \<^verbatim>\<open>__init__\<close> files
  what is left of each flag's dictionary under the last alias key, so the
  \<^verbatim>\<open>add_args\<close> of a flag are never found under the flag's own key, and every shortcut
  is registered under its double-dash spelling alone. The extension dictionary holds one
  entry, under \<^verbatim>\<open>filter-states\<close>, with the \<^verbatim>\<open>add_args\<close> of the last flag. The
  registered spellings start with \<^verbatim>\<open>-h\<close> and \<^verbatim>\<open>--help\<close>, which argparse adds itself.
\<close>

theorem shortcut_single_dash_switches_not_registered:
  "\<exists>ld p.
     get_argparse_loader pkg = Inr ld
     \<and> add_arguments ld None None = Inr (p, [])
     \<and> flag_extensions ld =
         [(''filter-states'',
           \<lparr>trait = None, flag_value = None, add_args = Some [''-q'', ''--quiet''],
            add_kwargs = None, section_name = Some ''logging''\<rparr>)]
     \<and> registered p =
         [''-h'', ''--help'', ''--xero-consumer-key'', ''--xero-key-path'',
            ''--file-log-level'',
          ''--log-dir'', ''--log-path'', ''--verbosity'', ''--config-dir'',
          ''--config-path'', ''--contact-limit'', ''--data-dir'', ''--dump-path'',
          ''--filter-contact-groups'', ''--filter-countries'', ''--filter-states'',
          ''--debug'', ''--verbose'', ''--quiet'']
     \<and> ''-d'' \<notin> set (registered p) \<and> ''-v'' \<notin> set (registered p)
     \<and> ''-q'' \<notin> set (registered p)"
proof -
  obtain ld p where
    "get_argparse_loader pkg = Inr ld"
    "add_arguments ld None None = Inr (p, [])"
    "flag_extensions ld =
           [(''filter-states'',
             \<lparr>trait = None, flag_value = None, add_args = Some [''-q'', ''--quiet''],
              add_kwargs = None, section_name = Some ''logging''\<rparr>)]"
    "registered p =
           [''-h'', ''--help'', ''--xero-consumer-key'', ''--xero-key-path'',
            ''--file-log-level'',
            ''--log-dir'', ''--log-path'', ''--verbosity'', ''--config-dir'',
            ''--config-path'', ''--contact-limit'', ''--data-dir'', ''--dump-path'',
            ''--filter-contact-groups'', ''--filter-countries'', ''--filter-states'',
            ''--debug'', ''--verbose'', ''--quiet'']"
    by (rule program_parser [of pkg]) (rule that)
  then show ?thesis
    by (intro exI [of _ ld] exI [of _ p]) simp
qed

section \<open>Shortcut flags on the command line\<close>

lemma parse_flag_tokens:
  assumes "\<And>t. t \<in> {''--debug'', ''--verbose'', ''--quiet''} \<Longrightarrow>
           \<exists>h. find (\<lambda>a. t \<in> set (option_strings a)) p =
             Some \<lparr>option_strings = [t],
                   kw = [(''dest'', KStr ''_flags''), (''action'', KStr ''append_const''),
                         (''const'',
                          KConst [(''LogConfig'', [(''stream_log_level'', switch_level t)])]),
                         (''help'', KStr h)]\<rparr>"
    and "set ts \<subseteq> {''--debug'', ''--verbose'', ''--quiet''}"
  shows "parse_tokens p ts ns subcs =
     Some (ns, subcs @ map (\<lambda>t. [(''LogConfig'', [(''stream_log_level'', switch_level t)])]) ts)"
  using assms(2)
proof (induction ts arbitrary: subcs)
  case Nil
  then show ?case by simp
next
  case (Cons t ts)
  then have "t \<in> {''--debug'', ''--verbose'', ''--quiet''}"
    by simp
  from assms(1) [OF this] obtain h where
    "find (\<lambda>a. t \<in> set (option_strings a)) p =
             Some \<lparr>option_strings = [t],
                   kw = [(''dest'', KStr ''_flags''), (''action'', KStr ''append_const''),
                         (''const'',
                          KConst [(''LogConfig'', [(''stream_log_level'', switch_level t)])]),
                         (''help'', KStr h)]\<rparr>"
    by blast
  moreover from Cons have "set ts \<subseteq> {''--debug'', ''--verbose'', ''--quiet''}"
    by simp
  ultimately show ?case
    using Cons.IH by (simp add: kw_str_def)
qed

lemma exec_config_str_dotted:
  assumes "split_sep (CHR ''.'') k = [s, f]"
  shows "\<exists>cfg'. exec_config_str w cfg k v = Some cfg'"
  using assms by (simp add: exec_config_str_def Let_def)

lemma exec_namespace_dotted:
  assumes "list_all (\<lambda>k. \<exists>s f. split_sep (CHR ''.'') k = [s, f]) (map fst ns)"
  shows "\<exists>cfg'. exec_namespace w cfg ns = Some cfg'"
  using assms
proof (induction ns arbitrary: cfg)
  case Nil
  then show ?case by simp
next
  case (Cons kv ns)
  obtain k v where kv: "kv = (k, v)"
    by (cases kv)
  with Cons.prems obtain s f where "split_sep (CHR ''.'') k = [s, f]"
    by auto
  from exec_config_str_dotted [OF this] obtain cfg' where
    "exec_config_str w cfg k v = Some cfg'"
    by blast
  moreover from Cons.prems have
    "list_all (\<lambda>k. \<exists>s f. split_sep (CHR ''.'') k = [s, f]) (map fst ns)"
    by simp
  ultimately show ?case
    using Cons.IH [of cfg'] kv by simp
qed

lemma field_load_flag_level:
  "field (load_flag cfg [(''LogConfig'', [(''stream_log_level'', l)])])
      ''LogConfig'' ''stream_log_level'' = Some (VStr l)"
  by (simp add: load_flag_def getsection_def field_def split: option.splits)

lemma field_load_flags_last:
  assumes "ts \<noteq> []"
  shows "field (foldl load_flag cfg
                  (map (\<lambda>t. [(''LogConfig'', [(''stream_log_level'', lvl t)])]) ts))
           ''LogConfig'' ''stream_log_level'' = Some (VStr (lvl (last ts)))"
proof -
  from assms obtain xs x where ts: "ts = xs @ [x]"
    by (cases ts rule: rev_cases) auto
  show ?thesis
    by (simp add: ts field_load_flag_level)
qed

lemma program_namespace_keys:
  "list_all (\<lambda>k. \<exists>s f. split_sep (CHR ''.'') k = [s, f])
     [''LogConfig.file_log_level'', ''LogConfig.log_path'', ''LogConfig.stream_log_level'',
      ''BaseConfig.contact_limit'', ''BaseConfig.dump_path'']"
proof -
  have "split_sep (CHR ''.'') ''LogConfig.file_log_level'' = [''LogConfig'', ''file_log_level'']"
    "split_sep (CHR ''.'') ''LogConfig.log_path'' = [''LogConfig'', ''log_path'']"
    "split_sep (CHR ''.'') ''LogConfig.stream_log_level'' = [''LogConfig'', ''stream_log_level'']"
    "split_sep (CHR ''.'') ''BaseConfig.contact_limit'' = [''BaseConfig'', ''contact_limit'']"
    "split_sep (CHR ''.'') ''BaseConfig.dump_path'' = [''BaseConfig'', ''dump_path'']"
    by code_simp+
  then show ?thesis
    by simp
qed

lemma shortcut_flags_run:
  assumes "ts \<noteq> []" and "set ts \<subseteq> {''--debug'', ''--verbose'', ''--quiet''}"
  shows "\<exists>ld cli. get_argparse_loader pkg = Inr ld
     \<and> kv_load_config w ld ts = Some (Inr cli)
     \<and> field cli ''LogConfig'' ''stream_log_level'' = Some (VStr (switch_level (last ts)))"
proof -
  obtain ld p where ld: "get_argparse_loader pkg = Inr ld"
    and p: "add_arguments ld None None = Inr (p, [])"
    and keys: "map fst (initial_namespace p) =
           [''LogConfig.file_log_level'', ''LogConfig.log_path'',
            ''LogConfig.stream_log_level'', ''BaseConfig.contact_limit'',
            ''BaseConfig.dump_path'']"
    and fnd: "\<And>t. t \<in> {''--debug'', ''--verbose'', ''--quiet''} \<Longrightarrow>
           \<exists>h. find (\<lambda>a. t \<in> set (option_strings a)) p =
             Some \<lparr>option_strings = [t],
                   kw = [(''dest'', KStr ''_flags''), (''action'', KStr ''append_const''),
                         (''const'',
                          KConst [(''LogConfig'', [(''stream_log_level'', switch_level t)])]),
                         (''help'', KStr h)]\<rparr>"
    by (rule program_parser [of pkg]) (rule that)
  have p': "add_arguments ld (Some (aliases ld)) (Some (flags ld)) = Inr (p, [])"
    using p by (simp add: add_arguments_def)
  have parse: "parse_tokens p ts (initial_namespace p) [] =
      Some (initial_namespace p,
            map (\<lambda>t. [(''LogConfig'', [(''stream_log_level'', switch_level t)])]) ts)"
    using parse_flag_tokens [of p ts "initial_namespace p" "[]"] fnd assms(2) by simp
  from exec_namespace_dotted [of "initial_namespace p" w Map.empty] keys
    program_namespace_keys
  obtain cfg where cfg: "exec_namespace w Map.empty (initial_namespace p) = Some cfg"
    by auto
  have "kv_load_config w ld ts =
      Some (Inr (foldl load_flag cfg
        (map (\<lambda>t. [(''LogConfig'', [(''stream_log_level'', switch_level t)])]) ts)))"
    by (simp add: kv_load_config_def p' parse cfg)
  with ld field_load_flags_last [OF assms(1), of cfg switch_level] show ?thesis
    by blast
qed

text \<open>
  C9. On a command line made of the switches \<^verbatim>\<open>--debug\<close>, \<^verbatim>\<open>--verbose\<close> and
  \<^verbatim>\<open>--quiet\<close>, in any number and order, the loader applies the shortcuts in token
  order: the command line layer holds, as \<^verbatim>\<open>LogConfig.stream_log_level\<close>, the level of
  the last switch. \<^verbatim>\<open>--verbose --quiet\<close> gives ERROR, \<^verbatim>\<open>--quiet --verbose\<close> gives
  INFO.
\<close>

theorem shortcut_flags_last_wins:
  "\<exists>ld. get_argparse_loader pkg = Inr ld
     \<and> (\<exists>cli. kv_load_config w ld [''--verbose'', ''--quiet''] = Some (Inr cli)
            \<and> field cli ''LogConfig'' ''stream_log_level'' = Some (VStr ''ERROR''))
     \<and> (\<exists>cli. kv_load_config w ld [''--quiet'', ''--verbose''] = Some (Inr cli)
            \<and> field cli ''LogConfig'' ''stream_log_level'' = Some (VStr ''INFO''))
     \<and> (\<forall>ts. ts \<noteq> [] \<and> set ts \<subseteq> {''--debug'', ''--verbose'', ''--quiet''} \<longrightarrow>
            (\<exists>cli. kv_load_config w ld ts = Some (Inr cli)
               \<and> field cli ''LogConfig'' ''stream_log_level''
                   = Some (VStr (switch_level (last ts)))))"
proof -
  obtain ld where ld: "get_argparse_loader pkg = Inr ld"
    by (rule program_parser [of pkg]) (rule that)
  have gen: "\<exists>cli. kv_load_config w ld ts = Some (Inr cli)
               \<and> field cli ''LogConfig'' ''stream_log_level'' = Some (VStr (switch_level (last ts)))"
    if "ts \<noteq> []" "set ts \<subseteq> {''--debug'', ''--verbose'', ''--quiet''}" for ts
    using shortcut_flags_run [OF that, of pkg w] ld by auto
  have a: "\<exists>cli. kv_load_config w ld [''--verbose'', ''--quiet''] = Some (Inr cli)
            \<and> field cli ''LogConfig'' ''stream_log_level'' = Some (VStr ''ERROR'')"
    using gen [of "[''--verbose'', ''--quiet'']"] by (simp add: switch_level_def)
  have b: "\<exists>cli. kv_load_config w ld [''--quiet'', ''--verbose''] = Some (Inr cli)
            \<and> field cli ''LogConfig'' ''stream_log_level'' = Some (VStr ''INFO'')"
    using gen [of "[''--quiet'', ''--verbose'']"] by (simp add: switch_level_def)
  from ld a b gen show ?thesis
    by blast
qed

theorem shortcut_flags_last_wins_witness:
  "\<exists>ld cli. get_argparse_loader example_package = Inr ld
     \<and> [''--quiet'', ''--verbose'', ''--debug''] \<noteq> []
     \<and> set [''--quiet'', ''--verbose'', ''--debug''] \<subseteq> {''--debug'', ''--verbose'', ''--quiet''}
     \<and> kv_load_config example_world ld [''--quiet'', ''--verbose'', ''--debug'']
         = Some (Inr cli)
     \<and> field cli ''LogConfig'' ''stream_log_level'' = Some (VStr ''DEBUG'')"
proof -
  from shortcut_flags_last_wins [of example_package example_world] obtain ld where
    ld: "get_argparse_loader example_package = Inr ld"
    and gen: "\<And>ts. ts \<noteq> [] \<and> set ts \<subseteq> {''--debug'', ''--verbose'', ''--quiet''} \<Longrightarrow>
            (\<exists>cli. kv_load_config example_world ld ts = Some (Inr cli)
               \<and> field cli ''LogConfig'' ''stream_log_level''
                   = Some (VStr (switch_level (last ts))))"
    by blast
  from gen [of "[''--quiet'', ''--verbose'', ''--debug'']"] ld show ?thesis
    by (simp add: switch_level_def)
qed

text \<open>
  A value on the command line goes through \<^verbatim>\<open>literal_eval\<close>: where that reads the
  argument \<^verbatim>\<open>0\<close> as the integer, \<^verbatim>\<open>--xero-consumer-key 0\<close> stores the integer
  \<^verbatim>\<open>0\<close>, and \<^verbatim>\<open>validate_config\<close> refuses the layer although both credentials are
  given.
\<close>

lemma command_line_zero_is_an_integer:
  "(case get_argparse_loader example_package of
      Inl e \<Rightarrow> False
    | Inr ld \<Rightarrow>
        (case kv_load_config (example_world\<lparr>literal_eval := map_of [(''0'', VInt 0)]\<rparr>) ld
                [''--xero-consumer-key'', ''0'', ''--xero-key-path'', ''key.pem''] of
           Some (Inr cli) \<Rightarrow>
             field cli ''XeroApiConfig'' ''consumer_key'' = Some (VInt 0)
             \<and> field cli ''XeroApiConfig'' ''rsa_key_path'' = Some (VStr ''key.pem'')
             \<and> snd (validate_config (Config\<lparr>secs := cli\<rparr>)) \<noteq> None
         | _ \<Rightarrow> False))"
  by code_simp

section \<open>Alias keys that collide\<close>

lemma trait_aliases_loop_step:
  "trait_aliases_loop cls ((key, t) # rest) acc =
     (if key \<in> set [''config'', ''parent''] then trait_aliases_loop cls rest acc
      else trait_aliases_loop cls rest
             (AList.update (alias_key key t) (alias_dict_of cls key t) acc))"
  by (simp add: Let_def alias_key_def alias_dict_of_def)

lemma find_snoc:
  "find P (xs @ [x]) =
     (case find P xs of None \<Rightarrow> (if P x then Some x else None) | Some y \<Rightarrow> Some y)"
  by (induction xs) auto

lemma map_of_trait_aliases_loop:
  "map_of (trait_aliases_loop cls ms acc) k =
     (case find (\<lambda>(key, t). alias_key key t = k)
             (rev (filter (\<lambda>(key, t). key \<notin> set [''config'', ''parent'']) ms)) of
        None \<Rightarrow> map_of acc k
      | Some (key, t) \<Rightarrow> Some (alias_dict_of cls key t))"
proof (induction ms arbitrary: acc)
  case Nil
  then show ?case by simp
next
  case (Cons m ms)
  obtain key t where m: "m = (key, t)"
    by (cases m)
  show ?case
    unfolding m trait_aliases_loop_step
    by (simp only: Cons.IH filter.simps rev.simps find_snoc split: if_splits)
       (auto simp: update_conv' split: option.splits)
qed

lemma distinct_trait_aliases_loop:
  "distinct (map fst acc) \<Longrightarrow> distinct (map fst (trait_aliases_loop cls ms acc))"
proof (induction ms arbitrary: acc)
  case Nil
  then show ?case by simp
next
  case (Cons m ms)
  obtain key t where m: "m = (key, t)"
    by (cases m)
  show ?case
    unfolding m trait_aliases_loop_step
    using Cons.prems by (auto intro!: Cons.IH simp: distinct_update)
qed

lemma trait_of_alias_dict_of: "trait (alias_dict_of cls key t) = Some (cls @ ''.'' @ key)"
  by (simp add: alias_dict_of_def no_values_def Let_def)

lemma trait_trait_aliases_loop:
  assumes "\<And>k v. map_of acc k = Some v \<Longrightarrow> trait v \<noteq> None"
    and "map_of (trait_aliases_loop cls ms acc) k = Some v"
  shows "trait v \<noteq> None"
  using assms(2) assms(1) [of k v]
  by (auto simp: map_of_trait_aliases_loop trait_of_alias_dict_of split: option.splits)

lemma map_of_dict_update:
  "distinct (map fst e) \<Longrightarrow>
   map_of (dict_update a e) k = (case map_of e k of None \<Rightarrow> map_of a k | Some v \<Rightarrow> Some v)"
proof (induction e arbitrary: a)
  case Nil
  then show ?case by (simp add: dict_update_def)
next
  case (Cons x e)
  obtain k' v' where x: "x = (k', v')"
    by (cases x)
  from Cons.prems have d: "distinct (map fst e)" and n: "map_of e k' = None"
    by (auto simp: x map_of_eq_None_iff)
  have "dict_update a (x # e) = dict_update (AList.update k' v' a) e"
    by (simp add: dict_update_def x)
  then show ?case
    using Cons.IH [OF d, of "AList.update k' v' a"] n
    by (auto simp: x update_conv' split: option.splits)
qed

lemma distinct_dict_update:
  "distinct (map fst a) \<Longrightarrow> distinct (map fst (dict_update a e))"
proof (induction e arbitrary: a)
  case Nil
  then show ?case by (simp add: dict_update_def)
next
  case (Cons x e)
  have "dict_update a (x # e) = dict_update (AList.update (fst x) (snd x) a) e"
    by (simp add: dict_update_def split_beta)
  then show ?case
    using Cons.IH [of "AList.update (fst x) (snd x) a"] Cons.prems
    by (simp add: distinct_update)
qed

lemma distinct_trait_argparse_aliases: "distinct (map fst (trait_argparse_aliases c))"
  by (simp add: trait_argparse_aliases_def distinct_trait_aliases_loop)

lemma collect_aliases_snoc:
  "collect_aliases (cs @ [c]) = dict_update (collect_aliases cs) (trait_argparse_aliases c)"
  by (simp add: collect_aliases_def)

lemma distinct_collect_aliases: "distinct (map fst (collect_aliases classes))"
proof (induction classes rule: rev_induct)
  case Nil
  then show ?case by (simp add: collect_aliases_def)
next
  case (snoc c cs)
  then show ?case
    by (simp add: collect_aliases_snoc distinct_dict_update)
qed

lemma map_of_collect_aliases:
  "map_of (collect_aliases classes) k =
     (case find (\<lambda>c. map_of (trait_argparse_aliases c) k \<noteq> None) (rev classes) of
        None \<Rightarrow> None
      | Some c \<Rightarrow> map_of (trait_argparse_aliases c) k)"
proof (induction classes rule: rev_induct)
  case Nil
  then show ?case by (simp add: collect_aliases_def)
next
  case (snoc c cs)
  then show ?case
    by (auto simp: collect_aliases_snoc map_of_dict_update distinct_trait_argparse_aliases
          split: option.splits)
qed

lemma trait_collect_aliases:
  assumes "map_of (collect_aliases classes) k = Some v"
  shows "trait v \<noteq> None"
proof -
  from assms obtain c where "map_of (trait_argparse_aliases c) k = Some v"
    by (auto simp: map_of_collect_aliases split: option.splits)
  then show ?thesis
    unfolding trait_argparse_aliases_def
    by (rule trait_trait_aliases_loop [rotated]) simp
qed

lemma init_aliases_run:
  assumes "distinct (map fst al)"
    and "\<forall>k v. map_of al k = Some v \<longrightarrow> trait v \<noteq> None"
  shows "\<exists>sa ex a. init_aliases al sa0 ex0 a0 = Inr (sa, ex, a)
           \<and> (al \<noteq> [] \<longrightarrow> a \<noteq> None)
           \<and> (al = [] \<longrightarrow> a = a0)
           \<and> (\<forall>k. map_of sa k =
                  (case map_of al k of None \<Rightarrow> map_of sa0 k | Some v \<Rightarrow> trait v))"
  using assms
proof (induction al arbitrary: sa0 ex0 a0)
  case Nil
  then show ?case by simp
next
  case (Cons x al)
  obtain key v where x: "x = (key, v)"
    by (cases x)
  from Cons.prems(1) have d: "distinct (map fst al)" and n: "map_of al key = None"
    by (auto simp: x map_of_eq_None_iff)
  have "map_of (x # al) key = Some v"
    by (simp add: x)
  with Cons.prems(2) have "trait v \<noteq> None"
    by blast
  then obtain t where t: "trait v = Some t"
    by auto
  have sub: "\<forall>k v'. map_of al k = Some v' \<longrightarrow> trait v' \<noteq> None"
  proof (intro allI impI)
    fix k v'
    assume "map_of al k = Some v'"
    with n have "map_of (x # al) k = Some v'"
      by (cases "k = key") (auto simp: x)
    with Cons.prems(2) show "trait v' \<noteq> None"
      by blast
  qed
  define ex1 where "ex1 = (if \<not> is_empty_values (v\<lparr>trait := None\<rparr>)
                           then AList.update key (v\<lparr>trait := None\<rparr>) ex0 else ex0)"
  have step: "init_aliases (x # al) sa0 ex0 a0
                = init_aliases al (AList.update key t sa0) ex1 (Some key)"
    by (simp add: x t ex1_def Let_def)
  from Cons.IH [of "AList.update key t sa0" ex1 "Some key", OF d sub]
  obtain sa ex a where r: "init_aliases al (AList.update key t sa0) ex1 (Some key)
                             = Inr (sa, ex, a)"
    and a: "al = [] \<longrightarrow> a = Some key" "al \<noteq> [] \<longrightarrow> a \<noteq> None"
    and m: "\<And>k. map_of sa k =
                  (case map_of al k of None \<Rightarrow> map_of (AList.update key t sa0) k
                   | Some v \<Rightarrow> trait v)"
    by blast
  have "a \<noteq> None"
    using a by (cases al) auto
  moreover have "map_of sa k =
       (case map_of (x # al) k of None \<Rightarrow> map_of sa0 k | Some v \<Rightarrow> trait v)" for k
    using m [of k] n t by (auto simp: x update_conv' split: option.splits)
  ultimately show ?case
    unfolding step r by simp
qed

lemma init_flags_builtin:
  "\<exists>sf fe. init_flags builtin_flags [] [] (Some a) = Inr (sf, fe)"
  by (simp add: builtin_flags_def no_values_def is_empty_values_def)

lemma builtin_flags_not_empty: "builtin_flags \<noteq> []"
  by (simp add: builtin_flags_def)

lemma get_argparse_loader_of_run:
  assumes "collect_aliases classes \<noteq> []"
  shows "\<exists>ld. get_argparse_loader_of classes d = Inr ld
     \<and> (\<forall>k. map_of (aliases ld) k =
            (case map_of (collect_aliases classes) k of None \<Rightarrow> None | Some v \<Rightarrow> trait v))"
proof -
  have tr: "\<forall>k v. map_of (collect_aliases classes) k = Some v \<longrightarrow> trait v \<noteq> None"
    using trait_collect_aliases by blast
  from init_aliases_run [of "collect_aliases classes" "[]" "[]" None,
      OF distinct_collect_aliases tr]
  obtain sa ex a where r: "init_aliases (collect_aliases classes) [] [] None = Inr (sa, ex, a)"
    and a: "collect_aliases classes \<noteq> [] \<longrightarrow> a \<noteq> None"
    and m: "\<And>k. map_of sa k =
               (case map_of (collect_aliases classes) k of None \<Rightarrow> map_of [] k
                | Some v \<Rightarrow> trait v)"
    by blast
  from a assms obtain al where al: "a = Some al"
    by auto
  from init_flags_builtin [of al] obtain sf fe where
    f: "init_flags builtin_flags [] [] (Some al) = Inr (sf, fe)"
    by blast
  show ?thesis
    using assms m
    by (simp add: get_argparse_loader_of_def RichKVArgParseConfigLoader_def r al f
          builtin_flags_not_empty cong: option.case_cong)
qed

text \<open>
  C4, as the code has it. No alias key is ever refused. Within a class,
  \<^verbatim>\<open>trait_argparse_aliases\<close> files under an alias key the dictionary of the last field,
  in the order of the class's traits, that produces the key: the entry of an earlier
  field with the same key is overwritten, and nothing is raised.
  \<^verbatim>\<open>get_argparse_loader\<close> lets the last class that has the key win in the same way.
  With a key in the mapping the loader is built without an error, and the key stands
  there for the trait of the field that won.
\<close>

theorem alias_key_collision_overwrites:
  "map_of (trait_argparse_aliases cls) k =
     (case find (\<lambda>(key, t). alias_key key t = k)
             (rev (filter (\<lambda>(key, t). key \<notin> set [''config'', ''parent''])
                     (dict_of (members cls)))) of
        None \<Rightarrow> None
      | Some (key, t) \<Rightarrow> Some (alias_dict_of (cls_name cls) key t))
   \<and> trait (alias_dict_of (cls_name cls) key t) = Some (cls_name cls @ ''.'' @ key)
   \<and> map_of (collect_aliases classes) k =
       (case find (\<lambda>c. map_of (trait_argparse_aliases c) k \<noteq> None) (rev classes) of
          None \<Rightarrow> None
        | Some c \<Rightarrow> map_of (trait_argparse_aliases c) k)
   \<and> (map_of (collect_aliases classes) k \<noteq> None \<longrightarrow>
        (\<exists>ld. get_argparse_loader_of classes d = Inr ld
           \<and> map_of (aliases ld) k =
               (case map_of (collect_aliases classes) k of
                  None \<Rightarrow> None
                | Some v \<Rightarrow> trait v)))"
proof (intro conjI impI)
  show "map_of (trait_argparse_aliases cls) k =
     (case find (\<lambda>(key, t). alias_key key t = k)
             (rev (filter (\<lambda>(key, t). key \<notin> set [''config'', ''parent''])
                     (dict_of (members cls)))) of
        None \<Rightarrow> None
      | Some (key, t) \<Rightarrow> Some (alias_dict_of (cls_name cls) key t))"
    by (simp add: trait_argparse_aliases_def map_of_trait_aliases_loop
          cong: option.case_cong)
  show "trait (alias_dict_of (cls_name cls) key t) = Some (cls_name cls @ ''.'' @ key)"
    by (rule trait_of_alias_dict_of)
  show "map_of (collect_aliases classes) k =
       (case find (\<lambda>c. map_of (trait_argparse_aliases c) k \<noteq> None) (rev classes) of
          None \<Rightarrow> None
        | Some c \<Rightarrow> map_of (trait_argparse_aliases c) k)"
    by (rule map_of_collect_aliases)
  show "\<exists>ld. get_argparse_loader_of classes d = Inr ld
           \<and> map_of (aliases ld) k =
               (case map_of (collect_aliases classes) k of
                  None \<Rightarrow> None
                | Some v \<Rightarrow> trait v)"
    if "map_of (collect_aliases classes) k \<noteq> None"
  proof -
    from that have "collect_aliases classes \<noteq> []"
      by auto
    from get_argparse_loader_of_run [OF this, of d] show ?thesis
      by blast
  qed
qed

text \<open>
  The theorem at a class whose fields \<^verbatim>\<open>a_b\<close> and \<^verbatim>\<open>other\<close> (switch \<^verbatim>\<open>a-b\<close>) both
  produce the key \<^verbatim>\<open>a-b\<close>: the loader is built, and \<^verbatim>\<open>a-b\<close> stands for \<^verbatim>\<open>Dup.other\<close>.
\<close>

theorem alias_key_collision_overwrites_witness:
  "map_of (collect_aliases [dup_class]) ''a-b'' \<noteq> None
   \<and> (\<exists>ld. get_argparse_loader_of [dup_class] [] = Inr ld
          \<and> map_of (aliases ld) ''a-b'' = Some ''Dup.other'')"
proof -
  have c: "collect_aliases [dup_class] =
      [(''a-b'', \<lparr>trait = Some ''Dup.other'', flag_value = None, add_args = None,
                  add_kwargs = Some [(''help'', KStr ''second'')],
                  section_name = Some ''dup''\<rparr>)]"
    by code_simp
  have n: "map_of (collect_aliases [dup_class]) ''a-b'' \<noteq> None"
    by (simp add: c)
  from alias_key_collision_overwrites [of dup_class "''a-b''" _ _ "[dup_class]" "[]"] n
  obtain ld where ld: "get_argparse_loader_of [dup_class] [] = Inr ld"
    and m: "map_of (aliases ld) ''a-b'' =
              (case map_of (collect_aliases [dup_class]) ''a-b'' of
                 None \<Rightarrow> None
               | Some v \<Rightarrow> trait v)"
    by blast
  from m have "map_of (aliases ld) ''a-b'' = Some ''Dup.other''"
    by (simp add: c)
  with n ld show ?thesis
    by blast
qed

text \<open>
  C4 as stated fails: the two fields of this class produce the same alias key, and
  neither building the alias mapping nor building the loader raises. The mapping holds
  one entry for the key, that of the second field. For this class the registration of
  the arguments goes through as well, and the parser has the switch \<^verbatim>\<open>--a-b\<close> once,
  for \<^verbatim>\<open>Dup.other\<close>, after the two switches of argparse itself.
\<close>

theorem duplicate_alias_key_not_rejected:
  "alias_key ''a_b'' (Unicode [] [(''help'', ''first'')]) = ''a-b''
   \<and> alias_key ''other'' (Unicode [] [(''switch'', ''a-b''), (''help'', ''second'')]) = ''a-b''
   \<and> map fst (trait_argparse_aliases dup_class) = [''a-b'']
   \<and> map_of (trait_argparse_aliases dup_class) ''a-b''
       = Some (alias_dict_of ''Dup'' ''other''
                 (Unicode [] [(''switch'', ''a-b''), (''help'', ''second'')]))
   \<and> (case get_argparse_loader_of [dup_class] [] of
         Inl e \<Rightarrow> False
       | Inr ld \<Rightarrow>
           aliases ld = [(''a-b'', ''Dup.other'')]
           \<and> (case add_arguments ld None None of
                 Inl e \<Rightarrow> False
               | Inr (p, af) \<Rightarrow>
                   registered p
                     = [''-h'', ''--help'', ''--a-b'', ''--debug'', ''--verbose'', ''--quiet'']))"
  by code_simp

text \<open>
  Whether the arguments can then be registered does not depend on a collision. A single
  field with the alias key \<^verbatim>\<open>help\<close> is enough for \<^verbatim>\<open>add_argument\<close> to refuse the
  switch \<^verbatim>\<open>--help\<close>, which the parser has already; the loader itself is built.
\<close>

lemma alias_key_help_conflicts:
  "(case get_argparse_loader_of
           [\<lparr>cls_name = ''H'', members = [(''help'', Unicode [] [])]\<rparr>] [] of
      Inl e \<Rightarrow> False
    | Inr ld \<Rightarrow>
        aliases ld = [(''help'', ''H.help'')]
        \<and> add_arguments ld None None
            = Inl (LibraryError ''argparse.ArgumentError: conflicting option string''))"
  by code_simp

section \<open>Normalized paths\<close>

lemma split_sep_no_sep: "c \<in> set (split_sep sep s) \<Longrightarrow> sep \<notin> set c"
proof (induction s arbitrary: c)
  case Nil
  then show ?case by simp
next
  case (Cons a s)
  then show ?case
    by (auto split: if_splits list.splits)
qed

lemma split_sep_plain: "sep \<notin> set x \<Longrightarrow> split_sep sep x = [x]"
  by (induction x) auto

lemma split_sep_append: "sep \<notin> set x \<Longrightarrow> split_sep sep (x @ sep # r) = x # split_sep sep r"
  by (induction x) auto

lemma split_join:
  "cs \<noteq> [] \<Longrightarrow> \<forall>c\<in>set cs. sep \<notin> set c \<Longrightarrow> split_sep sep (join_sep [sep] cs) = cs"
proof (induction cs)
  case Nil
  then show ?case by simp
next
  case (Cons x cs)
  show ?case
  proof (cases cs)
    case Nil
    with Cons.prems show ?thesis
      by (simp add: split_sep_plain)
  next
    case (Cons y ys)
    with Cons.prems Cons.IH show ?thesis
      by (simp add: split_sep_append)
  qed
qed

lemma join_sep_no_slash_first:
  "\<forall>c\<in>set cs. c \<noteq> [] \<and> CHR ''/'' \<notin> set c \<Longrightarrow> \<not> prefix ''/'' (join_sep ''/'' cs)"
proof (cases cs)
  case Nil
  then show ?thesis by simp
next
  case (Cons x xs)
  assume a: "\<forall>c\<in>set cs. c \<noteq> [] \<and> CHR ''/'' \<notin> set c"
  with Cons obtain h t where x: "x = h # t" and h: "h \<noteq> CHR ''/''"
    by (cases x) auto
  show ?thesis
    using h by (cases xs) (auto simp: Cons x)
qed

lemma set_dropWhile_append:
  "set (dropWhile P (xs @ ys)) \<subseteq> set (dropWhile P xs) \<union> set ys"
proof (induction xs)
  case Nil
  show ?case
    using set_dropWhileD [of _ P ys] by auto
next
  case (Cons x xs)
  then show ?case by auto
qed

lemma last_dropWhile: "dropWhile P xs \<noteq> [] \<Longrightarrow> last (dropWhile P xs) = last xs"
  by (induction xs) (auto split: if_splits)

lemma set_dropWhile_butlast: "set (dropWhile P (butlast xs)) \<subseteq> set (dropWhile P xs)"
proof (induction xs)
  case Nil
  show ?case by simp
next
  case (Cons x xs)
  then show ?case
    by (auto dest: in_set_butlastD)
qed

lemma dropWhile_all: "\<forall>x\<in>set xs. P x \<Longrightarrow> dropWhile P (xs @ ys) = dropWhile P ys"
  by (induction xs) auto

text \<open>
  The components that \<^verbatim>\<open>normpath\<close> keeps: none is empty or a dot or holds a slash, and
  \<^verbatim>\<open>..\<close> stands only at the front of a relative path.
\<close>

lemma normpath_step_keeps:
  assumes "(\<forall>c\<in>set acc. c \<noteq> [] \<and> c \<noteq> ''.'' \<and> CHR ''/'' \<notin> set c)
           \<and> (n \<noteq> 0 \<longrightarrow> ''..'' \<notin> set acc)
           \<and> ''..'' \<notin> set (dropWhile (\<lambda>c. c = ''..'') acc)"
    and "CHR ''/'' \<notin> set cmp"
  shows "(\<forall>c\<in>set (normpath_step n acc cmp). c \<noteq> [] \<and> c \<noteq> ''.'' \<and> CHR ''/'' \<notin> set c)
           \<and> (n \<noteq> 0 \<longrightarrow> ''..'' \<notin> set (normpath_step n acc cmp))
           \<and> ''..'' \<notin> set (dropWhile (\<lambda>c. c = ''..'') (normpath_step n acc cmp))"
proof -
  from assms have ok: "\<forall>c\<in>set acc. c \<noteq> [] \<and> c \<noteq> ''.'' \<and> CHR ''/'' \<notin> set c"
    and abs: "n \<noteq> 0 \<longrightarrow> ''..'' \<notin> set acc"
    and dots: "''..'' \<notin> set (dropWhile (\<lambda>c. c = ''..'') acc)"
    by blast+
  consider (skip) "cmp = [] \<or> cmp = ''.''"
    | (name) "cmp \<noteq> []" "cmp \<noteq> ''.''" "cmp \<noteq> ''..''"
    | (up_first) "cmp = ''..''" "n = 0" "acc = []"
    | (up_more) "cmp = ''..''" "acc \<noteq> []" "last acc = ''..''"
    | (up_pop) "cmp = ''..''" "acc \<noteq> []" "last acc \<noteq> ''..''"
    | (up_root) "cmp = ''..''" "n \<noteq> 0" "acc = []"
    by blast
  then show ?thesis
  proof cases
    case skip
    then show ?thesis
      using assms by (auto simp: normpath_step_def)
  next
    case name
    then have s: "normpath_step n acc cmp = acc @ [cmp]"
      by (simp add: normpath_step_def)
    have "''..'' \<notin> set (dropWhile (\<lambda>c. c = ''..'') (acc @ [cmp]))"
      using set_dropWhile_append [of "\<lambda>c. c = ''..''" acc "[cmp]"] dots name(3) by auto
    then show ?thesis
      unfolding s using ok abs name assms(2) by auto
  next
    case up_first
    then show ?thesis
      by (simp add: normpath_step_def)
  next
    case up_more
    then have s: "normpath_step n acc cmp = acc @ [''..'']"
      by (simp add: normpath_step_def)
    have e: "dropWhile (\<lambda>c. c = ''..'') acc = []"
    proof (rule ccontr)
      assume ne: "dropWhile (\<lambda>c. c = ''..'') acc \<noteq> []"
      then have "last (dropWhile (\<lambda>c. c = ''..'') acc) = ''..''"
        using up_more(3) by (simp add: last_dropWhile)
      with ne dots show False
        using last_in_set by metis
    qed
    then have all: "\<forall>c\<in>set acc. c = ''..''"
      by (simp add: dropWhile_eq_Nil_conv)
    then have d: "dropWhile (\<lambda>c. c = ''..'') (acc @ [''..'']) = []"
      by (simp add: dropWhile_eq_Nil_conv)
    from all up_more(2) have "''..'' \<in> set acc"
      by (cases acc) auto
    with abs have "n = 0"
      by blast
    then show ?thesis
      unfolding s d using ok by auto
  next
    case up_pop
    then have s: "normpath_step n acc cmp = butlast acc"
      by (cases "n = 0") (simp_all add: normpath_step_def)
    show ?thesis
      unfolding s
      using ok abs dots set_dropWhile_butlast [of "\<lambda>c. c = ''..''" acc]
      by (auto dest: in_set_butlastD)
  next
    case up_root
    then show ?thesis
      by (simp add: normpath_step_def)
  qed
qed

lemma normpath_foldl_keeps:
  assumes "(\<forall>c\<in>set acc. c \<noteq> [] \<and> c \<noteq> ''.'' \<and> CHR ''/'' \<notin> set c)
           \<and> (n \<noteq> 0 \<longrightarrow> ''..'' \<notin> set acc)
           \<and> ''..'' \<notin> set (dropWhile (\<lambda>c. c = ''..'') acc)"
    and "\<forall>c\<in>set cs. CHR ''/'' \<notin> set c"
  shows "(\<forall>c\<in>set (foldl (normpath_step n) acc cs).
             c \<noteq> [] \<and> c \<noteq> ''.'' \<and> CHR ''/'' \<notin> set c)
           \<and> (n \<noteq> 0 \<longrightarrow> ''..'' \<notin> set (foldl (normpath_step n) acc cs))
           \<and> ''..'' \<notin> set (dropWhile (\<lambda>c. c = ''..'') (foldl (normpath_step n) acc cs))"
  using assms
proof (induction cs arbitrary: acc)
  case Nil
  then show ?case by simp
next
  case (Cons c cs)
  from Cons.prems(2) have c: "CHR ''/'' \<notin> set c" and cs: "\<forall>c\<in>set cs. CHR ''/'' \<notin> set c"
    by simp_all
  show ?case
    using Cons.IH [OF normpath_step_keeps [OF Cons.prems(1) c] cs] by simp
qed

lemma normpath_foldl_fixed:
  assumes "(\<forall>c\<in>set (acc @ cs). c \<noteq> [] \<and> c \<noteq> ''.'' \<and> CHR ''/'' \<notin> set c)
           \<and> (n \<noteq> 0 \<longrightarrow> ''..'' \<notin> set (acc @ cs))
           \<and> ''..'' \<notin> set (dropWhile (\<lambda>c. c = ''..'') (acc @ cs))"
  shows "foldl (normpath_step n) acc cs = acc @ cs"
  using assms
proof (induction cs arbitrary: acc)
  case Nil
  then show ?case by simp
next
  case (Cons c cs)
  have step: "normpath_step n acc c = acc @ [c]"
  proof (cases "c = ''..''")
    case False
    with Cons.prems show ?thesis
      by (auto simp: normpath_step_def)
  next
    case True
    with Cons.prems have n: "n = 0"
      by auto
    have all: "\<forall>x\<in>set acc. x = ''..''"
    proof (rule ccontr)
      assume "\<not> (\<forall>x\<in>set acc. x = ''..'')"
      then obtain x where "x \<in> set acc" "\<not> x = ''..''"
        by blast
      then have "dropWhile (\<lambda>c. c = ''..'') (acc @ c # cs)
                   = dropWhile (\<lambda>c. c = ''..'') acc @ c # cs"
        by (rule dropWhile_append1)
      with Cons.prems True show False
        by auto
    qed
    then have "acc = [] \<or> last acc = ''..''"
      by (cases acc rule: rev_cases) auto
    with True n show ?thesis
      by (auto simp: normpath_step_def)
  qed
  from Cons.prems have "foldl (normpath_step n) (acc @ [c]) cs = (acc @ [c]) @ cs"
    by (intro Cons.IH) simp
  then show ?case
    by (simp add: step)
qed

lemma foldl_normpath_step_empty:
  "foldl (normpath_step n) acc (replicate k [] @ cs) = foldl (normpath_step n) acc cs"
  by (induction k) (simp_all add: normpath_step_def)

lemma foldl_normpath_step_empties:
  "foldl (normpath_step n) acc (replicate k []) = acc"
  by (induction k) (simp_all add: normpath_step_def)

lemma split_sep_slashes:
  "split_sep (CHR ''/'') (replicate k (CHR ''/'') @ s) = replicate k [] @ split_sep (CHR ''/'') s"
  by (induction k) simp_all

lemma normpath_dot: "normpath ''.'' = ''.''"
  by code_simp

lemma normpath_not_empty_eq:
  assumes "path \<noteq> []"
    and "n = (if prefix ''/'' path
              then (if prefix ''//'' path \<and> \<not> prefix ''///'' path then 2 else 1)
              else 0)"
  shows "normpath path =
     (if replicate n (CHR ''/'')
           @ join_sep ''/'' (foldl (normpath_step n) [] (split_sep (CHR ''/'') path)) = []
      then ''.''
      else replicate n (CHR ''/'')
           @ join_sep ''/'' (foldl (normpath_step n) [] (split_sep (CHR ''/'') path)))"
  using assms by (simp add: normpath_def Let_def)

lemma normpath_idem: "normpath (normpath path) = normpath path"
proof (cases "path = []")
  case True
  then show ?thesis
    by (simp add: normpath_dot normpath_def [of "[]"])
next
  case False
  define n :: nat where "n = (if prefix ''/'' path
               then (if prefix ''//'' path \<and> \<not> prefix ''///'' path then 2 else 1)
               else 0)"
  define new where "new = foldl (normpath_step n) [] (split_sep (CHR ''/'') path)"
  define r where "r = replicate n (CHR ''/'') @ join_sep ''/'' new"
  have np: "normpath path = (if r = [] then ''.'' else r)"
    unfolding r_def new_def by (rule normpath_not_empty_eq [OF False n_def])
  have inv: "(\<forall>c\<in>set new. c \<noteq> [] \<and> c \<noteq> ''.'' \<and> CHR ''/'' \<notin> set c)
           \<and> (n \<noteq> 0 \<longrightarrow> ''..'' \<notin> set new)
           \<and> ''..'' \<notin> set (dropWhile (\<lambda>c. c = ''..'') new)"
    unfolding new_def
    by (rule normpath_foldl_keeps) (auto dest: split_sep_no_sep)
  show ?thesis
  proof (cases "r = []")
    case True
    then show ?thesis
      by (simp add: np normpath_dot)
  next
    case ne: False
    have n012: "n = 0 \<or> n = 1 \<or> n = 2"
      by (simp add: n_def)
    from inv have nosl: "\<not> prefix ''/'' (join_sep ''/'' new)"
      by (intro join_sep_no_slash_first) blast
    have n': "(if prefix ''/'' r
               then (if prefix ''//'' r \<and> \<not> prefix ''///'' r then 2 else 1)
               else 0) = n"
      using n012 nosl by (auto simp: r_def numeral_2_eq_2)
    have sp: "foldl (normpath_step n) [] (split_sep (CHR ''/'') r) = new"
    proof (cases "new = []")
      case True
      have s: "split_sep (CHR ''/'') (replicate n (CHR ''/'')) = replicate n [] @ [[]]"
        using split_sep_slashes [of n "[]"] by simp
      have f: "foldl (normpath_step n) [] (replicate n [] @ [[]]) = []"
        unfolding foldl_normpath_step_empty by (simp add: normpath_step_def)
      show ?thesis
        unfolding r_def True by (simp only: join_sep.simps append_Nil2 s f)
    next
      case False
      with inv have "split_sep (CHR ''/'') (join_sep ''/'' new) = new"
        using split_join [of new "CHR ''/''"] by auto
      then show ?thesis
        using normpath_foldl_fixed [of "[]" new n] inv
        by (simp add: r_def split_sep_slashes foldl_normpath_step_empties)
    qed
    have "normpath r = (if r = [] then ''.'' else r)"
      using normpath_not_empty_eq [OF ne n' [symmetric]]
      unfolding sp r_def [symmetric] .
    with ne have "normpath r = r"
      by simp
    then show ?thesis
      by (simp add: np ne)
  qed
qed

lemma normpath_absolute: "prefix ''/'' path \<Longrightarrow> prefix ''/'' (normpath path)"
  by (auto simp: normpath_def Let_def numeral_2_eq_2)

section \<open>The path resolver\<close>

lemma abspath_normalized: "normpath (abspath w path) = abspath w path"
  by (simp add: abspath_def normpath_idem)

lemma abspath_absolute: "prefix ''/'' (cwd w) \<Longrightarrow> prefix ''/'' (abspath w path)"
  unfolding abspath_def
  by (rule normpath_absolute) (auto simp: isabs_def path_join_def prefix_def)

lemma expand_relative_path_abspath:
  "\<exists>x. expand_relative_path w (Some (VStr p)) (map_option VStr dir) = Inr (abspath w x)"
  by (cases dir) (auto simp: expand_relative_path_def fspath_def Let_def truthy_def)

lemma expand_relative_path_fixed:
  assumes "prefix ''/'' r" and "normpath r = r" and "expandvars w r = r"
  shows "expand_relative_path w (Some (VStr r)) dir = Inr r"
proof -
  from assms(1) obtain t where r: "r = CHR ''/'' # t"
    by (auto simp: prefix_def)
  have u: "expanduser w r = r"
    by (simp add: expanduser_def r)
  show ?thesis
    using assms
    by (simp add: expand_relative_path_def fspath_def Let_def u abspath_def isabs_def)
qed

lemma expandvars_no_dollar: "CHR ''$'' \<notin> set r \<Longrightarrow> expandvars w r = r"
  by (simp add: expandvars_def)

text \<open>
  C5, as the code has it. For a path that is a text and a base directory that is a text
  or \<^verbatim>\<open>None\<close>, \<^verbatim>\<open>expand_relative_path\<close> returns a path. That path is always normalized
  (\<^verbatim>\<open>normpath\<close> leaves it as it is), and it is absolute whenever the working directory
  is, as \<^verbatim>\<open>os.getcwd()\<close> gives it. Resolving the result again, against any base
  directory, gives the same path provided \<^verbatim>\<open>expandvars\<close> leaves the result as it is,
  which is so in particular when the result holds no dollar sign. Without that proviso
  the second call expands what the first one has put in.
\<close>

theorem expand_relative_path_idempotent_amended:
  "\<exists>r. expand_relative_path w (Some (VStr p)) (map_option VStr dir) = Inr r
     \<and> normpath r = r
     \<and> (prefix ''/'' (cwd w) \<longrightarrow> prefix ''/'' r)
     \<and> (prefix ''/'' (cwd w) \<and> expandvars w r = r
        \<longrightarrow> expand_relative_path w (Some (VStr r)) dir' = Inr r)
     \<and> (prefix ''/'' (cwd w) \<and> CHR ''$'' \<notin> set r
        \<longrightarrow> expand_relative_path w (Some (VStr r)) dir' = Inr r)"
proof -
  obtain x where x: "expand_relative_path w (Some (VStr p)) (map_option VStr dir)
                       = Inr (abspath w x)"
    using expand_relative_path_abspath by blast
  define r where "r = abspath w x"
  have n: "normpath r = r"
    by (simp add: r_def abspath_normalized)
  have a: "prefix ''/'' r" if "prefix ''/'' (cwd w)"
    using that by (simp add: r_def abspath_absolute)
  have i: "expand_relative_path w (Some (VStr r)) dir' = Inr r"
    if "prefix ''/'' (cwd w)" and "expandvars w r = r"
    using a [OF that(1)] n that(2) by (rule expand_relative_path_fixed)
  from x n a i show ?thesis
    unfolding r_def [symmetric] by (intro exI [of _ r]) (simp add: expandvars_no_dollar)
qed

text \<open>
  The theorem for \<^verbatim>\<open>conf.json\<close> under \<^verbatim>\<open>/etc/xmg\<close>, with the working directory
  \<^verbatim>\<open>/work\<close>: the result holds no dollar sign, and resolving it again changes nothing.
\<close>

theorem expand_relative_path_idempotent_amended_witness:
  "prefix ''/'' (cwd example_world)
   \<and> expand_relative_path example_world (Some (VStr ''conf.json'')) (Some (VStr ''/etc/xmg''))
       = Inr ''/etc/xmg/conf.json''
   \<and> CHR ''$'' \<notin> set ''/etc/xmg/conf.json''
   \<and> expandvars example_world ''/etc/xmg/conf.json'' = ''/etc/xmg/conf.json''
   \<and> expand_relative_path example_world (Some (VStr ''/etc/xmg/conf.json''))
         (Some (VStr ''/etc/xmg''))
       = Inr ''/etc/xmg/conf.json''"
proof -
  have c: "prefix ''/'' (cwd example_world)"
    by (simp add: example_world_def)
  have r: "expand_relative_path example_world (Some (VStr ''conf.json''))
             (Some (VStr ''/etc/xmg'')) = Inr ''/etc/xmg/conf.json''"
    by code_simp
  have d: "CHR ''$'' \<notin> set ''/etc/xmg/conf.json''"
    by simp
  have e: "expandvars example_world ''/etc/xmg/conf.json'' = ''/etc/xmg/conf.json''"
    by (simp add: expandvars_def)
  from expand_relative_path_idempotent_amended
         [of example_world "''conf.json''" "Some ''/etc/xmg''" "Some (VStr ''/etc/xmg'')"]
  have "expand_relative_path example_world (Some (VStr ''/etc/xmg/conf.json''))
          (Some (VStr ''/etc/xmg'')) = Inr ''/etc/xmg/conf.json''"
    using c e by (auto simp: r)
  with c r d e show ?thesis
    by blast
qed

text \<open>
  C5 as stated fails. With the environment variables \<^verbatim>\<open>A\<close> set to \<^verbatim>\<open>$B\<close> and \<^verbatim>\<open>B\<close>
  set to \<^verbatim>\<open>x\<close>, resolving \<^verbatim>\<open>$A\<close> under \<^verbatim>\<open>/d\<close> gives \<^verbatim>\<open>/d/$B\<close>, because
  \<^verbatim>\<open>expandvars\<close> does not expand the value it puts in, and resolving \<^verbatim>\<open>/d/$B\<close> under
  \<^verbatim>\<open>/d\<close> gives \<^verbatim>\<open>/d/x\<close>.
\<close>

theorem expand_relative_path_not_idempotent:
  "environ example_world ''A'' = Some ''$B''
   \<and> environ example_world ''B'' = Some ''x''
   \<and> expand_relative_path example_world (Some (VStr ''$A'')) (Some (VStr ''/d''))
       = Inr ''/d/$B''
   \<and> expand_relative_path example_world (Some (VStr ''/d/$B'')) (Some (VStr ''/d''))
       = Inr ''/d/x''
   \<and> (case expand_relative_path example_world (Some (VStr ''$A'')) (Some (VStr ''/d'')) of
         Inl e \<Rightarrow> False
       | Inr r \<Rightarrow>
           expand_relative_path example_world (Some (VStr r)) (Some (VStr ''/d'')) \<noteq> Inr r)"
proof -
  have a: "expand_relative_path example_world (Some (VStr ''$A'')) (Some (VStr ''/d''))
             = Inr ''/d/$B''"
    by code_simp
  have b: "expand_relative_path example_world (Some (VStr ''/d/$B'')) (Some (VStr ''/d''))
             = Inr ''/d/x''"
    by code_simp
  have c: "case expand_relative_path example_world (Some (VStr ''$A'')) (Some (VStr ''/d'')) of
         Inl e \<Rightarrow> False
       | Inr r \<Rightarrow>
           expand_relative_path example_world (Some (VStr r)) (Some (VStr ''/d'')) \<noteq> Inr r"
    unfolding a by (simp add: b)
  have e: "environ example_world ''A'' = Some ''$B''" "environ example_world ''B'' = Some ''x''"
    by (simp_all add: example_world_def)
  from a b c e show ?thesis
    by (intro conjI)
qed

end
